theory Spec2Isabelle
  imports Main "HOL-Library.Word"
begin

section \<open>Results of Go calls\<close>

text \<open>
  A step of the loader either goes on with a value, returns an error to the caller
  of \<open>loadConfig\<close>, or panics (a nil dereference, an assignment into a nil map).
\<close>

datatype 'a res = Ok 'a | Err string | Panic string

text \<open>
  What a call of a Go function with the signature \<open>(*config, error)\<close> does: it returns
  the pair (a nil pointer or a nil error is \<open>None\<close>), or the goroutine panics.
\<close>

datatype 'a outcome = Returns 'a | Panics string

section \<open>Package net: addresses\<close>

text \<open>\<open>net.IP\<close> is a byte slice.\<close>

type_synonym IP = "8 word list"

definition IPv4len :: nat where "IPv4len = 4"
definition IPv6len :: nat where "IPv6len = 16"

definition isZeros :: "IP \<Rightarrow> bool" where
  "isZeros p = list_all (\<lambda>b. b = 0) p"

text \<open>\<open>To4\<close> returns nil (\<open>None\<close>) when the address is not an IPv4 address.\<close>

definition To4 :: "IP \<Rightarrow> IP option" where
  "To4 ip =
     (if length ip = IPv4len then Some ip
      else if length ip = IPv6len \<and> isZeros (take 10 ip) \<and> ip ! 10 = 0xff \<and> ip ! 11 = 0xff
        then Some (take 4 (drop 12 ip))
      else None)"

section \<open>The input document\<close>

text \<open>
  The byte buffer handed to \<open>loadConfig\<close> is represented by the node tree the YAML
  parser builds from it, with anchors and merge keys expanded: a scalar with its
  resolved kind and its text, a sequence, or a mapping (the pairs in document order,
  the keys as their text). An empty buffer is the null scalar.
\<close>

datatype scalar = SNull | SBool bool | SInt int | SFloat | SStr

datatype yaml =
    YScalar scalar string
  | YSeq "yaml list"
  | YMap "(string \<times> yaml) list"

text \<open>The pairs of a mapping node; a node that is no mapping sets no key.\<close>

fun pairs_of :: "yaml \<Rightarrow> (string \<times> yaml) list" where
  "pairs_of (YMap kvs) = kvs"
| "pairs_of _ = []"

fun items_of :: "yaml \<Rightarrow> yaml list" where
  "items_of (YSeq xs) = xs"
| "items_of _ = []"

section \<open>The schema\<close>

record peer =
  Description :: string
  Disabled :: bool
  ASN :: nat
  NeighborIPs :: "string list"
  Prepends :: nat
  LocalPref :: nat
  Multihop :: bool
  Listen :: string
  LocalPort :: nat
  NeighborPort :: nat
  Passive :: bool
  NextHopSelf :: bool
  BFD :: bool
  Communities :: "string list"
  LargeCommunities :: "string list"
  Password :: string
  RSClient :: bool
  RRClient :: bool
  RemovePrivateASNs :: bool
  MPUnicast46 :: bool
  ASSet :: string
  ImportLimit4 :: nat
  ImportLimit6 :: nat
  EnforceFirstAS :: bool
  EnforcePeerNexthop :: bool
  MaxPrefixTripAction :: string
  AllowBlackholeCommunity :: bool
  FilterIRR :: bool
  FilterRPKI :: bool
  FilterMaxPrefix :: bool
  FilterBogons :: bool
  FilterTier1ASNs :: bool
  AutoImportLimits :: bool
  AutoASSet :: bool
  Prefixes :: "string list"
  AnnounceDefault :: bool
  AnnounceSpecifics :: bool
  SessionGlobal :: string
  PreImport :: string
  PreExport :: string
  PreImportFinal :: string
  PreExportFinal :: string
  ProtocolName :: string
  Protocols :: "string list"
  PrefixSet4 :: "string list"
  PrefixSet6 :: "string list"

record vrrpInstance =
  State :: string
  Interface :: string
  VRID :: nat
  Priority :: nat
  VIPs :: "string list"
  VIPs4 :: "string list"
  VIPs6 :: "string list"

text \<open>
  A Go map that the loader only reads is the list of its entries, the keys distinct.
  The two maps the loader builds, \<open>Statics4\<close> and \<open>Statics6\<close>, are partial functions,
  and \<open>None\<close> is the nil map.
\<close>

record augments =
  Accept4 :: "string list"
  Accept6 :: "string list"
  Reject4 :: "string list"
  Reject6 :: "string list"
  Statics :: "(string \<times> string) list"
  Statics4 :: "(string \<rightharpoonup> string) option"
  Statics6 :: "(string \<rightharpoonup> string) option"

record iface =
  Mtu :: nat
  XDPRTR :: bool
  Addresses :: "string list"
  Dummy :: bool
  Down :: bool

text \<open>
  \<open>Peers\<close> is a \<open>map[string]*peer\<close>: each entry holds a pointer, \<open>None\<close> the nil
  pointer. The decoder allocates one \<open>peer\<close> for each entry, so no two entries alias, and
  a write through the pointer of an entry is an update of that entry.
\<close>

record config =
  ASN :: nat
  Prefixes :: "string list"
  Communities :: "string list"
  LargeCommunities :: "string list"
  RouterID :: string
  IRRServer :: string
  RTRServer :: string
  RTRPort :: int
  KeepFiltered :: bool
  MergePaths :: bool
  Source4 :: string
  Source6 :: string
  AcceptDefault :: bool
  BirdDirectory :: string
  BirdSocket :: string
  KeepalivedConfig :: string
  WebUIFile :: string
  PeeringDbQueryTimeout :: nat
  IRRQueryTimeout :: nat
  Peers :: "(string \<times> peer option) list"
  Interfaces :: "(string \<times> iface) list"
  VRRPInstances :: "vrrpInstance list"
  Augments :: augments
  Prefixes4 :: "string list"
  Prefixes6 :: "string list"

text \<open>The zero values of the struct types.\<close>

definition zero_peer :: peer where
  "zero_peer = \<lparr>Description = [], Disabled = False, ASN = 0, NeighborIPs = [], Prepends = 0,
     LocalPref = 0, Multihop = False, Listen = [], LocalPort = 0, NeighborPort = 0,
     Passive = False, NextHopSelf = False, BFD = False, Communities = [],
     LargeCommunities = [], Password = [], RSClient = False, RRClient = False,
     RemovePrivateASNs = False, MPUnicast46 = False, ASSet = [], ImportLimit4 = 0,
     ImportLimit6 = 0, EnforceFirstAS = False, EnforcePeerNexthop = False,
     MaxPrefixTripAction = [], AllowBlackholeCommunity = False, FilterIRR = False,
     FilterRPKI = False, FilterMaxPrefix = False, FilterBogons = False,
     FilterTier1ASNs = False, AutoImportLimits = False, AutoASSet = False, Prefixes = [],
     AnnounceDefault = False, AnnounceSpecifics = False, SessionGlobal = [], PreImport = [],
     PreExport = [], PreImportFinal = [], PreExportFinal = [], ProtocolName = [],
     Protocols = [], PrefixSet4 = [], PrefixSet6 = []\<rparr>"

definition zero_vrrpInstance :: vrrpInstance where
  "zero_vrrpInstance = \<lparr>State = [], Interface = [], VRID = 0, Priority = 0, VIPs = [],
     VIPs4 = [], VIPs6 = []\<rparr>"

definition zero_augments :: augments where
  "zero_augments = \<lparr>Accept4 = [], Accept6 = [], Reject4 = [], Reject6 = [], Statics = [],
     Statics4 = None, Statics6 = None\<rparr>"

definition zero_iface :: iface where
  "zero_iface = \<lparr>Mtu = 0, XDPRTR = False, Addresses = [], Dummy = False, Down = False\<rparr>"

definition zero_config :: config where
  "zero_config = \<lparr>ASN = 0, Prefixes = [], Communities = [], LargeCommunities = [],
     RouterID = [], IRRServer = [], RTRServer = [], RTRPort = 0, KeepFiltered = False,
     MergePaths = False, Source4 = [], Source6 = [], AcceptDefault = False,
     BirdDirectory = [], BirdSocket = [], KeepalivedConfig = [], WebUIFile = [],
     PeeringDbQueryTimeout = 0, IRRQueryTimeout = 0, Peers = [], Interfaces = [],
     VRRPInstances = [], Augments = zero_augments, Prefixes4 = [], Prefixes6 = []\<rparr>"

section \<open>Strict decoding (\<open>yaml.UnmarshalStrict\<close>)\<close>

text \<open>
  Modelled from the spec: \<open>yaml.UnmarshalStrict\<close> of gopkg.in/yaml.v2, which is not part
  of the repository. It maps the document onto the schema; a key with no declared field,
  a key set twice and a value of the wrong shape for its field are errors (the decoder
  reports all of them together, the model the first). A null value leaves the zero value
  of the field's type; for a pointer that is the nil pointer. \<open>uint\<close> and \<open>int\<close> are
  64 bits wide.
\<close>

fun dec_string :: "yaml \<Rightarrow> string + string" where
  "dec_string (YScalar SNull txt) = Inr []"
| "dec_string (YScalar k txt) = Inr txt"
| "dec_string (YSeq xs) = Inl ''cannot unmarshal !!seq into string''"
| "dec_string (YMap kvs) = Inl ''cannot unmarshal !!map into string''"

fun dec_bool :: "yaml \<Rightarrow> string + bool" where
  "dec_bool (YScalar SNull txt) = Inr False"
| "dec_bool (YScalar (SBool b) txt) = Inr b"
| "dec_bool (YScalar k txt) = Inl (''cannot unmarshal '' @ txt @ '' into bool'')"
| "dec_bool (YSeq xs) = Inl ''cannot unmarshal !!seq into bool''"
| "dec_bool (YMap kvs) = Inl ''cannot unmarshal !!map into bool''"

fun dec_uint :: "nat \<Rightarrow> yaml \<Rightarrow> string + nat" where
  "dec_uint bits (YScalar SNull txt) = Inr 0"
| "dec_uint bits (YScalar (SInt i) txt) =
     (if 0 \<le> i \<and> i < 2 ^ bits then Inr (nat i)
      else Inl (''cannot unmarshal '' @ txt @ '' into uint''))"
| "dec_uint bits (YScalar k txt) = Inl (''cannot unmarshal '' @ txt @ '' into uint'')"
| "dec_uint bits (YSeq xs) = Inl ''cannot unmarshal !!seq into uint''"
| "dec_uint bits (YMap kvs) = Inl ''cannot unmarshal !!map into uint''"

fun dec_int :: "nat \<Rightarrow> yaml \<Rightarrow> string + int" where
  "dec_int bits (YScalar SNull txt) = Inr 0"
| "dec_int bits (YScalar (SInt i) txt) =
     (if - (2 ^ (bits - 1)) \<le> i \<and> i < 2 ^ (bits - 1) then Inr i
      else Inl (''cannot unmarshal '' @ txt @ '' into int''))"
| "dec_int bits (YScalar k txt) = Inl (''cannot unmarshal '' @ txt @ '' into int'')"
| "dec_int bits (YSeq xs) = Inl ''cannot unmarshal !!seq into int''"
| "dec_int bits (YMap kvs) = Inl ''cannot unmarshal !!map into int''"

fun dec_list :: "(yaml \<Rightarrow> string + 'a) \<Rightarrow> yaml list \<Rightarrow> string + 'a list" where
  "dec_list d [] = Inr []"
| "dec_list d (x # xs) =
     (case d x of
        Inl e \<Rightarrow> Inl e
      | Inr v \<Rightarrow> (case dec_list d xs of Inl e \<Rightarrow> Inl e | Inr vs \<Rightarrow> Inr (v # vs)))"

fun dec_slice :: "(yaml \<Rightarrow> string + 'a) \<Rightarrow> yaml \<Rightarrow> string + 'a list" where
  "dec_slice d (YScalar SNull txt) = Inr []"
| "dec_slice d (YScalar k txt) = Inl (''cannot unmarshal '' @ txt @ '' into slice'')"
| "dec_slice d (YSeq xs) = dec_list d xs"
| "dec_slice d (YMap kvs) = Inl ''cannot unmarshal !!map into slice''"

fun dec_entries :: "(yaml \<Rightarrow> string + 'a) \<Rightarrow> (string \<times> yaml) list \<Rightarrow> string + (string \<times> 'a) list" where
  "dec_entries d [] = Inr []"
| "dec_entries d ((k, v) # kvs) =
     (case d v of
        Inl e \<Rightarrow> Inl e
      | Inr x \<Rightarrow> (case dec_entries d kvs of Inl e \<Rightarrow> Inl e | Inr m \<Rightarrow> Inr ((k, x) # m)))"

fun dec_map :: "(yaml \<Rightarrow> string + 'a) \<Rightarrow> yaml \<Rightarrow> string + (string \<times> 'a) list" where
  "dec_map d (YScalar SNull txt) = Inr []"
| "dec_map d (YScalar k txt) = Inl (''cannot unmarshal '' @ txt @ '' into map'')"
| "dec_map d (YSeq xs) = Inl ''cannot unmarshal !!seq into map''"
| "dec_map d (YMap kvs) =
     (if distinct (map fst kvs) then dec_entries d kvs else Inl ''key already set in map'')"

fun dec_ptr :: "(yaml \<Rightarrow> string + 'a) \<Rightarrow> yaml \<Rightarrow> string + 'a option" where
  "dec_ptr d (YScalar SNull txt) = Inr None"
| "dec_ptr d n = (case d n of Inl e \<Rightarrow> Inl e | Inr x \<Rightarrow> Inr (Some x))"

text \<open>
  A struct type is decoded through the table of its fields: the wire key of the
  \<open>yaml\<close> tag and what a value under that key does to the struct. A field tagged
  \<open>yaml:"-"\<close> has no entry.
\<close>

type_synonym 'r setter = "yaml \<Rightarrow> 'r \<Rightarrow> string + 'r"

definition setter :: "(yaml \<Rightarrow> string + 'v) \<Rightarrow> (('v \<Rightarrow> 'v) \<Rightarrow> 'r \<Rightarrow> 'r) \<Rightarrow> 'r setter" where
  "setter d upd v r = (case d v of Inl e \<Rightarrow> Inl e | Inr x \<Rightarrow> Inr (upd (\<lambda>_. x) r))"

fun dec_fields ::
  "string \<Rightarrow> (string \<times> 'r setter) list \<Rightarrow> string list \<Rightarrow> (string \<times> yaml) list \<Rightarrow> 'r \<Rightarrow> string + 'r" where
  "dec_fields ty tab done [] r = Inr r"
| "dec_fields ty tab done ((k, v) # kvs) r =
     (case map_of tab k of
        None \<Rightarrow> Inl (''field '' @ k @ '' not found in type '' @ ty)
      | Some st \<Rightarrow>
          if k \<in> set done then Inl (''field '' @ k @ '' already set in type '' @ ty)
          else (case st v r of
                  Inl e \<Rightarrow> Inl e
                | Inr r' \<Rightarrow> dec_fields ty tab (k # done) kvs r'))"

fun dec_struct :: "string \<Rightarrow> (string \<times> 'r setter) list \<Rightarrow> 'r \<Rightarrow> yaml \<Rightarrow> string + 'r" where
  "dec_struct ty tab z (YScalar SNull txt) = Inr z"
| "dec_struct ty tab z (YScalar k txt) = Inl (''cannot unmarshal '' @ txt @ '' into '' @ ty)"
| "dec_struct ty tab z (YSeq xs) = Inl (''cannot unmarshal !!seq into '' @ ty)"
| "dec_struct ty tab z (YMap kvs) = dec_fields ty tab [] kvs z"

definition peer_fields :: "(string \<times> peer setter) list" where
  "peer_fields =
    [(''description'', setter dec_string Description_update),
     (''disabled'', setter dec_bool Disabled_update),
     (''asn'', setter (dec_uint 64) peer.ASN_update),
     (''neighbors'', setter (dec_slice dec_string) NeighborIPs_update),
     (''prepends'', setter (dec_uint 64) Prepends_update),
     (''local-pref'', setter (dec_uint 64) LocalPref_update),
     (''multihop'', setter dec_bool Multihop_update),
     (''listen'', setter dec_string Listen_update),
     (''local-port'', setter (dec_uint 16) LocalPort_update),
     (''neighbor-port'', setter (dec_uint 16) NeighborPort_update),
     (''passive'', setter dec_bool Passive_update),
     (''next-hop-self'', setter dec_bool NextHopSelf_update),
     (''bfd'', setter dec_bool BFD_update),
     (''communities'', setter (dec_slice dec_string) peer.Communities_update),
     (''large-communities'', setter (dec_slice dec_string) peer.LargeCommunities_update),
     (''password'', setter dec_string Password_update),
     (''rs-client'', setter dec_bool RSClient_update),
     (''rr-client'', setter dec_bool RRClient_update),
     (''remove-private-as'', setter dec_bool RemovePrivateASNs_update),
     (''mp-unicast-46'', setter dec_bool MPUnicast46_update),
     (''as-set'', setter dec_string ASSet_update),
     (''import-limit4'', setter (dec_uint 64) ImportLimit4_update),
     (''import-limit6'', setter (dec_uint 64) ImportLimit6_update),
     (''enforce-first-as'', setter dec_bool EnforceFirstAS_update),
     (''enforce-peer-nexthop'', setter dec_bool EnforcePeerNexthop_update),
     (''max-prefix-action'', setter dec_string MaxPrefixTripAction_update),
     (''allow-blackhole-community'', setter dec_bool AllowBlackholeCommunity_update),
     (''filter-irr'', setter dec_bool FilterIRR_update),
     (''filter-rpki'', setter dec_bool FilterRPKI_update),
     (''filter-max-prefix'', setter dec_bool FilterMaxPrefix_update),
     (''filter-bogons'', setter dec_bool FilterBogons_update),
     (''filter-tier1-asns'', setter dec_bool FilterTier1ASNs_update),
     (''auto-import-limits'', setter dec_bool AutoImportLimits_update),
     (''auto-as-set'', setter dec_bool AutoASSet_update),
     (''prefixes'', setter (dec_slice dec_string) peer.Prefixes_update),
     (''announce-default'', setter dec_bool AnnounceDefault_update),
     (''announce-specifics'', setter dec_bool AnnounceSpecifics_update),
     (''session-global'', setter dec_string SessionGlobal_update),
     (''pre-import'', setter dec_string PreImport_update),
     (''pre-export'', setter dec_string PreExport_update),
     (''pre-import-final'', setter dec_string PreImportFinal_update),
     (''pre-export-final'', setter dec_string PreExportFinal_update)]"

definition vrrpInstance_fields :: "(string \<times> vrrpInstance setter) list" where
  "vrrpInstance_fields =
    [(''state'', setter dec_string State_update),
     (''interface'', setter dec_string Interface_update),
     (''vrid'', setter (dec_uint 64) VRID_update),
     (''priority'', setter (dec_uint 8) Priority_update),
     (''vips'', setter (dec_slice dec_string) VIPs_update)]"

definition augments_fields :: "(string \<times> augments setter) list" where
  "augments_fields =
    [(''accept4'', setter (dec_slice dec_string) Accept4_update),
     (''accept6'', setter (dec_slice dec_string) Accept6_update),
     (''reject4'', setter (dec_slice dec_string) Reject4_update),
     (''reject6'', setter (dec_slice dec_string) Reject6_update),
     (''statics'', setter (dec_map dec_string) Statics_update)]"

definition iface_fields :: "(string \<times> iface setter) list" where
  "iface_fields =
    [(''mtu'', setter (dec_uint 64) Mtu_update),
     (''xdprtr'', setter dec_bool XDPRTR_update),
     (''addresses'', setter (dec_slice dec_string) Addresses_update),
     (''dummy'', setter dec_bool Dummy_update),
     (''down'', setter dec_bool Down_update)]"

definition dec_peer :: "yaml \<Rightarrow> string + peer" where
  "dec_peer = dec_struct ''main.peer'' peer_fields zero_peer"

definition dec_vrrpInstance :: "yaml \<Rightarrow> string + vrrpInstance" where
  "dec_vrrpInstance = dec_struct ''main.vrrpInstance'' vrrpInstance_fields zero_vrrpInstance"

definition dec_augments :: "yaml \<Rightarrow> string + augments" where
  "dec_augments = dec_struct ''main.augments'' augments_fields zero_augments"

definition dec_iface :: "yaml \<Rightarrow> string + iface" where
  "dec_iface = dec_struct ''main.iface'' iface_fields zero_iface"

definition config_fields :: "(string \<times> config setter) list" where
  "config_fields =
    [(''asn'', setter (dec_uint 64) config.ASN_update),
     (''prefixes'', setter (dec_slice dec_string) config.Prefixes_update),
     (''communities'', setter (dec_slice dec_string) config.Communities_update),
     (''large-communities'', setter (dec_slice dec_string) config.LargeCommunities_update),
     (''router-id'', setter dec_string RouterID_update),
     (''irr-server'', setter dec_string IRRServer_update),
     (''rtr-server'', setter dec_string RTRServer_update),
     (''rtr-port'', setter (dec_int 64) RTRPort_update),
     (''keep-filtered'', setter dec_bool KeepFiltered_update),
     (''merge-paths'', setter dec_bool MergePaths_update),
     (''source4'', setter dec_string Source4_update),
     (''source6'', setter dec_string Source6_update),
     (''accept-default'', setter dec_bool AcceptDefault_update),
     (''bird-directory'', setter dec_string BirdDirectory_update),
     (''bird-socket'', setter dec_string BirdSocket_update),
     (''keepalived-config'', setter dec_string KeepalivedConfig_update),
     (''web-ui-file'', setter dec_string WebUIFile_update),
     (''peeringdb-query-timeout'', setter (dec_uint 64) PeeringDbQueryTimeout_update),
     (''irr-query-timeout'', setter (dec_uint 64) IRRQueryTimeout_update),
     (''peers'', setter (dec_map (dec_ptr dec_peer)) Peers_update),
     (''interfaces'', setter (dec_map dec_iface) Interfaces_update),
     (''vrrp'', setter (dec_slice dec_vrrpInstance) VRRPInstances_update),
     (''augments'', setter dec_augments Augments_update)]"

definition yaml_UnmarshalStrict :: "yaml \<Rightarrow> string + config" where
  "yaml_UnmarshalStrict configBlob = dec_struct ''main.config'' config_fields zero_config configBlob"

section \<open>Default filling (\<open>defaults.Set\<close>)\<close>

text \<open>
  Modelled from the spec: \<open>defaults.Set\<close> of github.com/creasty/defaults, which is not
  part of the repository. Every field that carries a \<open>default\<close> tag and holds the zero
  value of its type is assigned the tagged value; no other field changes. A call on the
  root object does not reach the peers behind the \<open>Peers\<close> map. None of the tagged values
  of this schema can fail to parse, so the call returns no error; on a nil pointer it
  panics.
\<close>

definition default_uint :: "nat \<Rightarrow> nat \<Rightarrow> nat" where
  "default_uint d x = (if x = 0 then d else x)"

definition default_int :: "int \<Rightarrow> int \<Rightarrow> int" where
  "default_int d x = (if x = 0 then d else x)"

definition default_bool :: "bool \<Rightarrow> bool \<Rightarrow> bool" where
  "default_bool d x = (if x = False then d else x)"

definition default_string :: "string \<Rightarrow> string \<Rightarrow> string" where
  "default_string d x = (if x = [] then d else x)"

definition defaults_config :: "config \<Rightarrow> config" where
  "defaults_config c = c
     \<lparr>IRRServer := default_string ''rr.ntt.net'' (IRRServer c),
      RTRServer := default_string ''rtr.rpki.cloudflare.com'' (RTRServer c),
      RTRPort := default_int 8282 (RTRPort c),
      KeepFiltered := default_bool False (KeepFiltered c),
      MergePaths := default_bool False (MergePaths c),
      AcceptDefault := default_bool False (AcceptDefault c),
      BirdDirectory := default_string ''/etc/bird/'' (BirdDirectory c),
      BirdSocket := default_string ''/run/bird/bird.ctl'' (BirdSocket c),
      KeepalivedConfig := default_string ''/etc/keepalived.conf'' (KeepalivedConfig c),
      WebUIFile := default_string ''/run/wireframe.html'' (WebUIFile c),
      PeeringDbQueryTimeout := default_uint 10 (PeeringDbQueryTimeout c),
      IRRQueryTimeout := default_uint 30 (IRRQueryTimeout c)\<rparr>"

definition defaults_peer :: "peer \<Rightarrow> peer" where
  "defaults_peer p = p
     \<lparr>Prepends := default_uint 0 (Prepends p),
      LocalPref := default_uint 100 (LocalPref p),
      Multihop := default_bool False (Multihop p),
      LocalPort := default_uint 179 (LocalPort p),
      NeighborPort := default_uint 179 (NeighborPort p),
      Passive := default_bool False (Passive p),
      NextHopSelf := default_bool False (NextHopSelf p),
      BFD := default_bool False (BFD p),
      RSClient := default_bool False (RSClient p),
      RRClient := default_bool False (RRClient p),
      RemovePrivateASNs := default_bool True (RemovePrivateASNs p),
      MPUnicast46 := default_bool False (MPUnicast46 p),
      ImportLimit4 := default_uint 1000000 (ImportLimit4 p),
      ImportLimit6 := default_uint 100000 (ImportLimit6 p),
      EnforceFirstAS := default_bool True (EnforceFirstAS p),
      EnforcePeerNexthop := default_bool True (EnforcePeerNexthop p),
      MaxPrefixTripAction := default_string ''disable'' (MaxPrefixTripAction p),
      AllowBlackholeCommunity := default_bool False (AllowBlackholeCommunity p),
      FilterIRR := default_bool True (FilterIRR p),
      FilterRPKI := default_bool True (FilterRPKI p),
      FilterMaxPrefix := default_bool True (FilterMaxPrefix p),
      FilterBogons := default_bool True (FilterBogons p),
      FilterTier1ASNs := default_bool False (FilterTier1ASNs p),
      AutoImportLimits := default_bool False (AutoImportLimits p),
      AutoASSet := default_bool False (AutoASSet p),
      AnnounceDefault := default_bool False (AnnounceDefault p),
      AnnounceSpecifics := default_bool True (AnnounceSpecifics p)\<rparr>"

definition defaults_Set_config :: "config \<Rightarrow> string + config" where
  "defaults_Set_config c = Inr (defaults_config c)"

fun defaults_Set_peer :: "peer option \<Rightarrow> (string + peer) outcome" where
  "defaults_Set_peer None = Panics ''reflect: call of reflect.Value.Type on zero Value''"
| "defaults_Set_peer (Some p) = Returns (Inr (defaults_peer p))"

section \<open>What \<open>loadConfig\<close> takes from its environment\<close>

text \<open>
  The parsers of package net and the validator are parameters of the loader: nothing
  below depends on which strings they accept. \<open>net_ParseCIDR\<close> returns \<open>None\<close> where
  \<open>net.ParseCIDR\<close> returns an error and the address otherwise (every caller discards
  the \<open>*IPNet\<close>), \<open>net_ParseIP\<close> returns \<open>None\<close> where
  \<open>net.ParseIP\<close> returns nil, and \<open>validate_Struct\<close> returns the error of
  \<open>validate.Struct\<close>, if any.

  The order in which a \<open>range\<close> over a map visits the keys is chosen by the Go runtime
  on every run. Each of the three loops over a map has its own choice: a function from
  the keys the map holds to the order of the visit.
\<close>

record env =
  net_ParseCIDR :: "string \<Rightarrow> IP option"
  net_ParseIP :: "string \<Rightarrow> IP option"
  validate_Struct :: "config \<Rightarrow> string option"
  range_Peers_defaults :: "string list \<Rightarrow> string list"
  range_Statics :: "string list \<Rightarrow> string list"
  range_Peers_prefixes :: "string list \<Rightarrow> string list"

text \<open>A \<open>range\<close> visits every key of the map once.\<close>

definition range_ok :: "(string list \<Rightarrow> string list) \<Rightarrow> bool" where
  "range_ok f = (\<forall>ks. distinct ks \<longrightarrow> distinct (f ks) \<and> set (f ks) = set ks)"

definition env_ok :: "env \<Rightarrow> bool" where
  "env_ok E = (range_ok (range_Peers_defaults E) \<and> range_ok (range_Statics E)
     \<and> range_ok (range_Peers_prefixes E))"

section \<open>\<open>loadConfig\<close>\<close>

text \<open>A write through the pointer held under key \<open>k\<close>.\<close>

fun store :: "string \<Rightarrow> 'v \<Rightarrow> (string \<times> 'v) list \<Rightarrow> (string \<times> 'v) list" where
  "store k v [] = []"
| "store k v ((k', v') # m) = (if k' = k then (k', v) # m else (k', v') # store k v m)"

text \<open>Lines 171 to 175: the defaults of every peer.\<close>

fun peers_defaults_loop ::
  "string list \<Rightarrow> (string \<times> peer option) list \<Rightarrow> (string \<times> peer option) list res" where
  "peers_defaults_loop [] peers = Ok peers"
| "peers_defaults_loop (k # ks) peers =
     (case map_of peers k of
        None \<Rightarrow> peers_defaults_loop ks peers
      | Some peerData \<Rightarrow>
          (case defaults_Set_peer peerData of
             Panics m \<Rightarrow> Panic m
           | Returns (Inl err) \<Rightarrow> Err (''peer defaults: '' @ err)
           | Returns (Inr p) \<Rightarrow> peers_defaults_loop ks (store k (Some p) peers)))"

text \<open>
  Lines 178 to 189: the origin prefixes. The branch taken when \<open>To4\<close> returns nil
  appends to \<open>Prefixes4\<close>, the other one to \<open>Prefixes6\<close>.
\<close>

fun origin_loop :: "env \<Rightarrow> string list \<Rightarrow> config \<Rightarrow> config res" where
  "origin_loop E [] c = Ok c"
| "origin_loop E (prefix # rest) c =
     (case net_ParseCIDR E prefix of
        None \<Rightarrow> Err (''invalid origin prefix: '' @ prefix)
      | Some pfx \<Rightarrow>
          if To4 pfx = None
          then origin_loop E rest (c\<lparr>Prefixes4 := Prefixes4 c @ [prefix]\<rparr>)
          else origin_loop E rest (c\<lparr>Prefixes6 := Prefixes6 c @ [prefix]\<rparr>))"

text \<open>Lines 196 to 210: the static routes. An assignment into a nil map panics.\<close>

fun map_assign :: "(string \<rightharpoonup> string) option \<Rightarrow> string \<Rightarrow> string \<Rightarrow> (string \<rightharpoonup> string) option res" where
  "map_assign None k v = Panic ''assignment to entry in nil map''"
| "map_assign (Some m) k v = Ok (Some (m(k \<mapsto> v)))"

fun statics_loop :: "env \<Rightarrow> string list \<Rightarrow> config \<Rightarrow> config res" where
  "statics_loop E [] c = Ok c"
| "statics_loop E (prefix # rest) c =
     (case map_of (Statics (Augments c)) prefix of
        None \<Rightarrow> statics_loop E rest c
      | Some nexthop \<Rightarrow>
          (case net_ParseCIDR E prefix of
             None \<Rightarrow> Err (''invalid static prefix: '' @ prefix)
           | Some pfx \<Rightarrow>
               if net_ParseIP E nexthop = None
               then Err (''invalid static nexthop: '' @ nexthop)
               else if To4 pfx = None
               then (case map_assign (Statics6 (Augments c)) prefix nexthop of
                       Ok m \<Rightarrow> statics_loop E rest (c\<lparr>Augments := (Augments c)\<lparr>Statics6 := m\<rparr>\<rparr>)
                     | Err e \<Rightarrow> Err e
                     | Panic e \<Rightarrow> Panic e)
               else (case map_assign (Statics4 (Augments c)) prefix nexthop of
                       Ok m \<Rightarrow> statics_loop E rest (c\<lparr>Augments := (Augments c)\<lparr>Statics4 := m\<rparr>\<rparr>)
                     | Err e \<Rightarrow> Err e
                     | Panic e \<Rightarrow> Panic e)))"

text \<open>
  Lines 213 to 236: the VRRP instances. The loop variable \<open>vrrpInstance\<close> is a copy of
  the element of \<open>config.VRRPInstances\<close>: the body works on the copy, and the next
  iteration starts from the next element of the slice, which nothing has written.
\<close>

fun vips_loop :: "env \<Rightarrow> string list \<Rightarrow> vrrpInstance \<Rightarrow> vrrpInstance res" where
  "vips_loop E [] vrrpInstance = Ok vrrpInstance"
| "vips_loop E (vip # rest) vrrpInstance =
     (case net_ParseCIDR E vip of
        None \<Rightarrow> Err (''invalid VIP: '' @ vip)
      | Some ip \<Rightarrow>
          if To4 ip = None
          then vips_loop E rest (vrrpInstance\<lparr>VIPs6 := VIPs6 vrrpInstance @ [vip]\<rparr>)
          else vips_loop E rest (vrrpInstance\<lparr>VIPs4 := VIPs4 vrrpInstance @ [vip]\<rparr>))"

definition vrrp_state :: "vrrpInstance \<Rightarrow> vrrpInstance res" where
  "vrrp_state vrrpInstance =
     (if State vrrpInstance = ''primary'' then Ok (vrrpInstance\<lparr>State := ''MASTER''\<rparr>)
      else if State vrrpInstance = ''backup'' then Ok (vrrpInstance\<lparr>State := ''BACKUP''\<rparr>)
      else Err (''VRRP state must be 'primary' or 'backup', unexpected '' @ State vrrpInstance))"

definition vrrp_body :: "env \<Rightarrow> vrrpInstance \<Rightarrow> vrrpInstance res" where
  "vrrp_body E vrrpInstance =
     (case vips_loop E (VIPs vrrpInstance) vrrpInstance of
        Ok v \<Rightarrow> vrrp_state v
      | Err e \<Rightarrow> Err e
      | Panic e \<Rightarrow> Panic e)"

fun vrrp_loop :: "env \<Rightarrow> vrrpInstance list \<Rightarrow> unit res" where
  "vrrp_loop E [] = Ok ()"
| "vrrp_loop E (vrrpInstance # rest) =
     (case vrrp_body E vrrpInstance of
        Ok copy \<Rightarrow> vrrp_loop E rest
      | Err e \<Rightarrow> Err e
      | Panic e \<Rightarrow> Panic e)"

text \<open>
  Lines 239 to 252: the prefix filters of the peers, written through the pointer. The
  branch taken when \<open>To4\<close> returns nil appends to \<open>PrefixSet4\<close>.
\<close>

fun prefix_set_loop :: "env \<Rightarrow> string list \<Rightarrow> peer \<Rightarrow> peer res" where
  "prefix_set_loop E [] p = Ok p"
| "prefix_set_loop E (prefix # rest) p =
     (case net_ParseCIDR E prefix of
        None \<Rightarrow> Err (''invalid prefix: '' @ prefix)
      | Some pfx \<Rightarrow>
          if To4 pfx = None
          then prefix_set_loop E rest (p\<lparr>PrefixSet4 := PrefixSet4 p @ [prefix]\<rparr>)
          else prefix_set_loop E rest (p\<lparr>PrefixSet6 := PrefixSet6 p @ [prefix]\<rparr>))"

fun peers_prefixes_loop ::
  "env \<Rightarrow> string list \<Rightarrow> (string \<times> peer option) list \<Rightarrow> (string \<times> peer option) list res" where
  "peers_prefixes_loop E [] peers = Ok peers"
| "peers_prefixes_loop E (k # ks) peers =
     (case map_of peers k of
        None \<Rightarrow> peers_prefixes_loop E ks peers
      | Some None \<Rightarrow> Panic ''invalid memory address or nil pointer dereference''
      | Some (Some peerData) \<Rightarrow>
          (case prefix_set_loop E (peer.Prefixes peerData) peerData of
             Ok p \<Rightarrow> peers_prefixes_loop E ks (store k (Some p) peers)
           | Err e \<Rightarrow> Err e
           | Panic e \<Rightarrow> Panic e))"

text \<open>Lines 177 to 254, on the validated and defaulted object.\<close>

definition normalize :: "env \<Rightarrow> config \<Rightarrow> config res" where
  "normalize E config =
     (case origin_loop E (config.Prefixes config) config of
        Err e \<Rightarrow> Err e
      | Panic e \<Rightarrow> Panic e
      | Ok c1 \<Rightarrow>
     (case statics_loop E (range_Statics E (map fst (Statics (Augments c1))))
             (c1\<lparr>Augments := (Augments c1)\<lparr>Statics4 := Some Map.empty, Statics6 := Some Map.empty\<rparr>\<rparr>) of
        Err e \<Rightarrow> Err e
      | Panic e \<Rightarrow> Panic e
      | Ok c2 \<Rightarrow>
     (case vrrp_loop E (VRRPInstances c2) of
        Err e \<Rightarrow> Err e
      | Panic e \<Rightarrow> Panic e
      | Ok u \<Rightarrow>
     (case peers_prefixes_loop E (range_Peers_prefixes E (map fst (Peers c2))) (Peers c2) of
        Err e \<Rightarrow> Err e
      | Panic e \<Rightarrow> Panic e
      | Ok ps \<Rightarrow> Ok (c2\<lparr>Peers := ps\<rparr>)))))"

text \<open>Lines 167 to 175.\<close>

definition fill_defaults :: "env \<Rightarrow> config \<Rightarrow> config res" where
  "fill_defaults E config =
     (case defaults_Set_config config of
        Inl err \<Rightarrow> Err (''defaults: '' @ err)
      | Inr c \<Rightarrow>
          (case peers_defaults_loop (range_Peers_defaults E (map fst (Peers c))) (Peers c) of
             Err e \<Rightarrow> Err e
           | Panic e \<Rightarrow> Panic e
           | Ok ps \<Rightarrow> Ok (c\<lparr>Peers := ps\<rparr>)))"

definition loadConfig :: "env \<Rightarrow> yaml \<Rightarrow> (config option \<times> string option) outcome" where
  "loadConfig E configBlob =
     (case yaml_UnmarshalStrict configBlob of
        Inl err \<Rightarrow> Returns (None, Some (''yaml unmarshal: '' @ err))
      | Inr config \<Rightarrow>
     (case validate_Struct E config of
        Some err \<Rightarrow> Returns (None, Some (''validation: '' @ err))
      | None \<Rightarrow>
     (case fill_defaults E config of
        Err e \<Rightarrow> Returns (None, Some e)
      | Panic e \<Rightarrow> Panics e
      | Ok c \<Rightarrow>
     (case normalize E c of
        Err e \<Rightarrow> Returns (None, Some e)
      | Panic e \<Rightarrow> Panics e
      | Ok c' \<Rightarrow> Returns (Some c', None)))))"

section \<open>A reference environment\<close>

text \<open>
  Modelled from the spec: \<open>net.ParseCIDR\<close> and \<open>net.ParseIP\<close> of the Go standard
  library, which are not part of the repository, after the family classification rule
  (an address in dotted-quad form, or in colon-hexadecimal form with at most one
  \<open>::\<close> and an optional trailing dotted quad; a prefix length in decimal). They are
  used to run the loader on concrete documents.
\<close>

definition big :: int where "big = 0xFFFFFF"

definition code :: "char \<Rightarrow> int" where "code c = of_char c"

fun dtoi_loop :: "string \<Rightarrow> int \<Rightarrow> nat \<Rightarrow> int \<times> nat \<times> bool" where
  "dtoi_loop [] n i = (if i = 0 then (0, 0, False) else (n, i, True))"
| "dtoi_loop (c # s) n i =
     (if 48 \<le> code c \<and> code c \<le> 57
      then (let n' = n * 10 + (code c - 48)
            in if n' \<ge> big then (big, i, False) else dtoi_loop s n' (i + 1))
      else if i = 0 then (0, 0, False) else (n, i, True))"

definition dtoi :: "string \<Rightarrow> int \<times> nat \<times> bool" where
  "dtoi s = dtoi_loop s 0 0"

fun xtoi_loop :: "string \<Rightarrow> int \<Rightarrow> nat \<Rightarrow> int \<times> nat \<times> bool" where
  "xtoi_loop [] n i = (if i = 0 then (0, i, False) else (n, i, True))"
| "xtoi_loop (c # s) n i =
     (case (if 48 \<le> code c \<and> code c \<le> 57 then Some (n * 16 + (code c - 48))
            else if 97 \<le> code c \<and> code c \<le> 102 then Some (n * 16 + (code c - 97) + 10)
            else if 65 \<le> code c \<and> code c \<le> 70 then Some (n * 16 + (code c - 65) + 10)
            else None) of
        None \<Rightarrow> if i = 0 then (0, i, False) else (n, i, True)
      | Some n' \<Rightarrow> if n' \<ge> big then (0, i, False) else xtoi_loop s n' (i + 1))"

definition xtoi :: "string \<Rightarrow> int \<times> nat \<times> bool" where
  "xtoi s = xtoi_loop s 0 0"

definition v4InV6Prefix :: IP where
  "v4InV6Prefix = [0, 0, 0, 0, 0, 0, 0, 0, 0, 0, 0xff, 0xff]"

definition IPv4 :: "IP \<Rightarrow> IP" where
  "IPv4 p = v4InV6Prefix @ p"

fun parseIPv4_loop :: "nat \<Rightarrow> string \<Rightarrow> IP \<Rightarrow> IP option" where
  "parseIPv4_loop 0 s p = (if s \<noteq> [] then None else Some (IPv4 p))"
| "parseIPv4_loop (Suc k) s p =
     (if s = [] then None
      else case (if p = [] then Some s else if hd s \<noteq> CHR ''.'' then None else Some (tl s)) of
        None \<Rightarrow> None
      | Some s1 \<Rightarrow>
          (case dtoi s1 of
             (n, c, ok) \<Rightarrow>
               if \<not> ok \<or> n > 0xFF then None
               else if c > 1 \<and> hd s1 = CHR ''0'' then None
               else parseIPv4_loop k (drop c s1) (p @ [of_int n])))"

definition parseIPv4 :: "string \<Rightarrow> IP option" where
  "parseIPv4 s = parseIPv4_loop IPv4len s []"

fun parseIPv6_loop :: "nat \<Rightarrow> string \<Rightarrow> IP \<Rightarrow> nat option \<Rightarrow> (string \<times> IP \<times> nat option) option" where
  "parseIPv6_loop 0 s ip ellipsis = Some (s, ip, ellipsis)"
| "parseIPv6_loop (Suc k) s ip ellipsis =
     (case xtoi s of
        (n, c, ok) \<Rightarrow>
          if \<not> ok \<or> n > 0xFFFF then None
          else if c < length s \<and> s ! c = CHR ''.''
          then (if ellipsis = None \<and> length ip \<noteq> IPv6len - IPv4len then None
                else if length ip + IPv4len > IPv6len then None
                else case parseIPv4 s of
                       None \<Rightarrow> None
                     | Some ip4 \<Rightarrow> Some ([], ip @ drop 12 ip4, ellipsis))
          else (let ip' = ip @ [of_int (n div 256), of_int n]; s1 = drop c s
                in if s1 = [] then Some (s1, ip', ellipsis)
                   else if hd s1 \<noteq> CHR '':'' \<or> length s1 = 1 then None
                   else if hd (tl s1) = CHR '':''
                   then (if ellipsis \<noteq> None then None
                         else if tl (tl s1) = [] then Some ([], ip', Some (length ip'))
                         else parseIPv6_loop k (tl (tl s1)) ip' (Some (length ip')))
                   else parseIPv6_loop k (tl s1) ip' ellipsis))"

definition parseIPv6 :: "string \<Rightarrow> IP option" where
  "parseIPv6 s =
     (let lead = (length s \<ge> 2 \<and> s ! 0 = CHR '':'' \<and> s ! 1 = CHR '':'');
          s0 = (if lead then drop 2 s else s);
          ellipsis = (if lead then Some 0 else None)
      in if lead \<and> s0 = [] then Some (replicate IPv6len 0)
         else case parseIPv6_loop 8 s0 [] ellipsis of
                None \<Rightarrow> None
              | Some (s', ip, e) \<Rightarrow>
                  if s' \<noteq> [] then None
                  else if length ip < IPv6len
                  then (case e of
                          None \<Rightarrow> None
                        | Some j \<Rightarrow> Some (take j ip @ replicate (IPv6len - length ip) 0 @ drop j ip))
                  else if e \<noteq> None then None
                  else Some ip)"

definition ParseCIDR :: "string \<Rightarrow> IP option" where
  "ParseCIDR s =
     (if CHR ''/'' \<notin> set s then None
      else let addr = takeWhile (\<lambda>c. c \<noteq> CHR ''/'') s;
               mask = tl (dropWhile (\<lambda>c. c \<noteq> CHR ''/'') s);
               ip4 = parseIPv4 addr;
               iplen = (if ip4 = None then IPv6len else IPv4len);
               ip = (if ip4 = None then parseIPv6 addr else ip4)
           in case dtoi mask of
                (n, i, ok) \<Rightarrow>
                  if ip = None \<or> \<not> ok \<or> i \<noteq> length mask \<or> n > 8 * int iplen then None else ip)"

fun ParseIP_loop :: "string \<Rightarrow> string \<Rightarrow> IP option" where
  "ParseIP_loop s [] = None"
| "ParseIP_loop s (c # rest) =
     (if c = CHR ''.'' then parseIPv4 s
      else if c = CHR '':'' then parseIPv6 s
      else ParseIP_loop s rest)"

definition ParseIP :: "string \<Rightarrow> IP option" where
  "ParseIP s = ParseIP_loop s s"

text \<open>
  Modelled from the spec: \<open>validate.Struct\<close> of github.com/go-playground/validator,
  which is not part of the repository. The root object has two \<open>required\<close> fields; the
  \<open>Peers\<close> and \<open>VRRPInstances\<close> fields carry no \<open>validate\<close> tag of their own, and the
  validator enters a collection only under a \<open>dive\<close> tag.
\<close>

definition validate_root :: "config \<Rightarrow> string option" where
  "validate_root c =
     (if config.ASN c = 0
      then Some ''Key: 'config.ASN' Error:Field validation for 'ASN' failed on the 'required' tag''
      else if RouterID c = []
      then Some ''Key: 'config.RouterID' Error:Field validation for 'RouterID' failed on the 'required' tag''
      else None)"

text \<open>Two environments that differ in the order of every \<open>range\<close> over a map.\<close>

definition std_env :: env where
  "std_env = \<lparr>net_ParseCIDR = ParseCIDR, net_ParseIP = ParseIP, validate_Struct = validate_root,
     range_Peers_defaults = (\<lambda>ks. ks), range_Statics = (\<lambda>ks. ks),
     range_Peers_prefixes = (\<lambda>ks. ks)\<rparr>"

definition rev_env :: env where
  "rev_env = \<lparr>net_ParseCIDR = ParseCIDR, net_ParseIP = ParseIP, validate_Struct = validate_root,
     range_Peers_defaults = rev, range_Statics = rev, range_Peers_prefixes = rev\<rparr>"

section \<open>The Documenter\<close>

text \<open>
  \<open>documentConfigTypes\<close> walks a \<open>reflect.Type\<close>. The types of the schema form a finite
  tree: a struct type holds its fields, and a field its name, its type and its tag (the
  key-value pairs of the tag string, read by \<open>Tag.Get\<close>).
\<close>

datatype gotype =
    TBasic string
  | TSlice gotype
  | TMap gotype gotype
  | TPtr gotype
  | TStruct string "field list"
and field = StructField (Name: string) (Type: gotype) (Tag: "(string \<times> string) list")

datatype kind = Basic | Slice | Map | Ptr | Struct

fun type_String :: "gotype \<Rightarrow> string" where
  "type_String (TBasic n) = n"
| "type_String (TSlice e) = ''[]'' @ type_String e"
| "type_String (TMap k v) = ''map['' @ type_String k @ '']'' @ type_String v"
| "type_String (TPtr e) = ''*'' @ type_String e"
| "type_String (TStruct n fs) = ''main.'' @ n"

fun Kind :: "gotype \<Rightarrow> kind" where
  "Kind (TBasic n) = Basic"
| "Kind (TSlice e) = Slice"
| "Kind (TMap k v) = Map"
| "Kind (TPtr e) = Ptr"
| "Kind (TStruct n fs) = Struct"

fun Elem :: "gotype \<Rightarrow> gotype option" where
  "Elem (TSlice e) = Some e"
| "Elem (TMap k v) = Some v"
| "Elem (TPtr e) = Some e"
| "Elem t = None"

definition Tag_Get :: "(string \<times> string) list \<Rightarrow> string \<Rightarrow> string" where
  "Tag_Get tag key = (case map_of tag key of None \<Rightarrow> [] | Some v \<Rightarrow> v)"

fun has_prefix :: "string \<Rightarrow> string \<Rightarrow> bool" where
  "has_prefix s [] = True"
| "has_prefix [] (p # ps) = False"
| "has_prefix (c # s) (p # ps) = (c = p \<and> has_prefix s ps)"

fun strings_Contains :: "string \<Rightarrow> string \<Rightarrow> bool" where
  "strings_Contains [] substr = (substr = [])"
| "strings_Contains (c # s) substr = (has_prefix (c # s) substr \<or> strings_Contains s substr)"

function remove_all :: "string \<Rightarrow> string \<Rightarrow> string" where
  "remove_all [] old = []"
| "remove_all (c # s) old =
     (if old \<noteq> [] \<and> has_prefix (c # s) old then remove_all (drop (length old) (c # s)) old
      else c # remove_all s old)"
  by pat_completeness auto
termination
  by (relation "measure (\<lambda>(s, old). length s)") auto

datatype stop = Fatalf string | Paniced string

text \<open>Lines 266 to 288: the rows of one table and the types of its child tables.\<close>

fun fields_loop :: "field list \<Rightarrow> string list \<Rightarrow> gotype list \<Rightarrow> string list \<times> gotype list \<times> stop option" where
  "fields_loop [] out childTypes = (out, childTypes, None)"
| "fields_loop (f # fs) out childTypes =
     (let description = Tag_Get (Tag f) ''description'';
          key = Tag_Get (Tag f) ''yaml'';
          validation = Tag_Get (Tag f) ''validate'';
          fDefault = Tag_Get (Tag f) ''default'';
          fDefault = (if fDefault \<noteq> [] then ''`'' @ fDefault @ ''`'' else fDefault)
      in if description = []
         then (out, childTypes, Some (Fatalf (''code error: '' @ Name f @ '' doesn't have a description'')))
         else if description \<noteq> ''-''
         then (case (if strings_Contains (type_String (Type f)) ''main.''
                     then (if Kind (Type f) = Map \<or> Kind (Type f) = Slice
                           then map_option (\<lambda>e. childTypes @ [e]) (Elem (Type f))
                           else Some (childTypes @ [Type f]))
                     else Some childTypes) of
                 None \<Rightarrow> (out, childTypes, Some (Paniced ''reflect: Elem of invalid type''))
               | Some cs \<Rightarrow>
                   fields_loop fs
                     (out @ [''| `'' @ key @ ''` | `'' @ remove_all (type_String (Type f)) ''main.''
                             @ ''` | '' @ fDefault @ '' | '' @ validation @ '' | '' @ description @ '' |''])
                     cs)
         else fields_loop fs out childTypes)"

fun children_loop :: "(string list \<times> stop option) list \<Rightarrow> string list \<Rightarrow> string list \<times> stop option" where
  "children_loop [] out = (out, None)"
| "children_loop ((ls, None) # rest) out = children_loop rest (out @ ls)"
| "children_loop ((ls, Some st) # rest) out = (out @ ls, Some st)"


text \<open>The struct declarations of lines 24 to 147, as \<open>reflect.TypeOf\<close> returns them.\<close>

definition peer_type :: gotype where
  "peer_type = TStruct ''peer''
    [StructField ''Description'' (TBasic ''string'')
       [(''yaml'', ''description''), (''description'', ''Peer description'')],
     StructField ''Disabled'' (TBasic ''bool'')
       [(''yaml'', ''disabled''), (''description'', ''Should the sessions be disabled?'')],
     StructField ''ASN'' (TBasic ''uint'')
       [(''yaml'', ''asn''), (''description'', ''Local ASN''), (''validate'', ''required'')],
     StructField ''NeighborIPs'' (TSlice (TBasic ''string''))
       [(''yaml'', ''neighbors''), (''description'', ''List of neighbor IPs''), (''validate'', ''required,ip'')],
     StructField ''Prepends'' (TBasic ''uint'')
       [(''yaml'', ''prepends''), (''description'', ''Number of times to prepend local AS on export''), (''default'', ''0'')],
     StructField ''LocalPref'' (TBasic ''uint'')
       [(''yaml'', ''local-pref''), (''description'', ''BGP local preference''), (''default'', ''100'')],
     StructField ''Multihop'' (TBasic ''bool'')
       [(''yaml'', ''multihop''), (''description'', ''Should BGP multihop be enabled? (255 max hops)''), (''default'', ''false'')],
     StructField ''Listen'' (TBasic ''string'')
       [(''yaml'', ''listen''), (''description'', ''BGP listen address'')],
     StructField ''LocalPort'' (TBasic ''uint16'')
       [(''yaml'', ''local-port''), (''description'', ''Local TCP port''), (''default'', ''179'')],
     StructField ''NeighborPort'' (TBasic ''uint16'')
       [(''yaml'', ''neighbor-port''), (''description'', ''Neighbor TCP port''), (''default'', ''179'')],
     StructField ''Passive'' (TBasic ''bool'')
       [(''yaml'', ''passive''), (''description'', ''Should we listen passively?''), (''default'', ''false'')],
     StructField ''NextHopSelf'' (TBasic ''bool'')
       [(''yaml'', ''next-hop-self''), (''description'', ''Should BGP next-hop-self be enabled?''), (''default'', ''false'')],
     StructField ''BFD'' (TBasic ''bool'')
       [(''yaml'', ''bfd''), (''description'', ''Should BFD be enabled?''), (''default'', ''false'')],
     StructField ''Communities'' (TSlice (TBasic ''string''))
       [(''yaml'', ''communities''), (''description'', ''List of communities to add on export'')],
     StructField ''LargeCommunities'' (TSlice (TBasic ''string''))
       [(''yaml'', ''large-communities''), (''description'', ''List of large communities to add on export'')],
     StructField ''Password'' (TBasic ''string'')
       [(''yaml'', ''password''), (''description'', ''BGP MD5 password'')],
     StructField ''RSClient'' (TBasic ''bool'')
       [(''yaml'', ''rs-client''), (''description'', ''Should this peer be a route server client?''), (''default'', ''false'')],
     StructField ''RRClient'' (TBasic ''bool'')
       [(''yaml'', ''rr-client''), (''description'', ''Should this peer be a route reflector client?''), (''default'', ''false'')],
     StructField ''RemovePrivateASNs'' (TBasic ''bool'')
       [(''yaml'', ''remove-private-as''), (''description'', ''Should private ASNs be removed from path before exporting?''), (''default'', ''true'')],
     StructField ''MPUnicast46'' (TBasic ''bool'')
       [(''yaml'', ''mp-unicast-46''), (''description'', ''Should this peer be configured with multiprotocol IPv4 and IPv6 unicast?''), (''default'', ''false'')],
     StructField ''ASSet'' (TBasic ''string'')
       [(''yaml'', ''as-set''), (''description'', ''Peer's as-set for filtering'')],
     StructField ''ImportLimit4'' (TBasic ''uint'')
       [(''yaml'', ''import-limit4''), (''description'', ''Maximum number of IPv4 prefixes to import''), (''default'', ''1000000'')],
     StructField ''ImportLimit6'' (TBasic ''uint'')
       [(''yaml'', ''import-limit6''), (''description'', ''Maximum number of IPv6 prefixes to import''), (''default'', ''100000'')],
     StructField ''EnforceFirstAS'' (TBasic ''bool'')
       [(''yaml'', ''enforce-first-as''), (''description'', ''Should we only accept routes who's first AS is equal to the configured peer address?''), (''default'', ''true'')],
     StructField ''EnforcePeerNexthop'' (TBasic ''bool'')
       [(''yaml'', ''enforce-peer-nexthop''), (''description'', ''Should we only accept routes with a next hop equal to the configured neighbor address?''), (''default'', ''true'')],
     StructField ''MaxPrefixTripAction'' (TBasic ''string'')
       [(''yaml'', ''max-prefix-action''), (''description'', ''What action should be taken when the max prefix limit is tripped?''), (''default'', ''disable'')],
     StructField ''AllowBlackholeCommunity'' (TBasic ''bool'')
       [(''yaml'', ''allow-blackhole-community''), (''description'', ''Should this peer be allowed to send routes with the blackhole community?''), (''default'', ''false'')],
     StructField ''FilterIRR'' (TBasic ''bool'')
       [(''yaml'', ''filter-irr''), (''description'', ''Should IRR filtering be applied?''), (''default'', ''true'')],
     StructField ''FilterRPKI'' (TBasic ''bool'')
       [(''yaml'', ''filter-rpki''), (''description'', ''Should RPKI invalids be rejected?''), (''default'', ''true'')],
     StructField ''FilterMaxPrefix'' (TBasic ''bool'')
       [(''yaml'', ''filter-max-prefix''), (''description'', ''Should max prefix filtering be applied?''), (''default'', ''true'')],
     StructField ''FilterBogons'' (TBasic ''bool'')
       [(''yaml'', ''filter-bogons''), (''description'', ''Should bogon prefixes be rejected?''), (''default'', ''true'')],
     StructField ''FilterTier1ASNs'' (TBasic ''bool'')
       [(''yaml'', ''filter-tier1-asns''), (''description'', (''Should paths containing 'Tier 1' ASNs be rejected (Peerlock Lite)?'' @ [CHR 0x27])), (''default'', ''false'')],
     StructField ''AutoImportLimits'' (TBasic ''bool'')
       [(''yaml'', ''auto-import-limits''), (''description'', ''Get import limits automatically from PeeringDB?''), (''default'', ''false'')],
     StructField ''AutoASSet'' (TBasic ''bool'')
       [(''yaml'', ''auto-as-set''), (''description'', ''Get as-set automatically from PeeringDB?''), (''default'', ''false'')],
     StructField ''Prefixes'' (TSlice (TBasic ''string''))
       [(''yaml'', ''prefixes''), (''description'', ''Prefixes to accept'')],
     StructField ''AnnounceDefault'' (TBasic ''bool'')
       [(''yaml'', ''announce-default''), (''description'', ''Should a default route be exported to this peer?''), (''default'', ''false'')],
     StructField ''AnnounceSpecifics'' (TBasic ''bool'')
       [(''yaml'', ''announce-specifics''), (''description'', ''Should more specific routes be exported to this peer?''), (''default'', ''true'')],
     StructField ''SessionGlobal'' (TBasic ''string'')
       [(''yaml'', ''session-global''), (''description'', ''Configuration to add to each session before any defined BGP protocols'')],
     StructField ''PreImport'' (TBasic ''string'')
       [(''yaml'', ''pre-import''), (''description'', ''Configuration to add at the beginning of the import filter'')],
     StructField ''PreExport'' (TBasic ''string'')
       [(''yaml'', ''pre-export''), (''description'', ''Configuration to add at the beginning of the export filter'')],
     StructField ''PreImportFinal'' (TBasic ''string'')
       [(''yaml'', ''pre-import-final''), (''description'', ''Configuration to add immediately before the final accept/reject on import'')],
     StructField ''PreExportFinal'' (TBasic ''string'')
       [(''yaml'', ''pre-export-final''), (''description'', ''Configuration to add immediately before the final accept/reject on export'')],
     StructField ''ProtocolName'' (TBasic ''string'')
       [(''yaml'', ''-''), (''description'', ''-'')],
     StructField ''Protocols'' (TSlice (TBasic ''string''))
       [(''yaml'', ''-''), (''description'', ''-'')],
     StructField ''PrefixSet4'' (TSlice (TBasic ''string''))
       [(''yaml'', ''-''), (''description'', ''-'')],
     StructField ''PrefixSet6'' (TSlice (TBasic ''string''))
       [(''yaml'', ''-''), (''description'', ''-'')]]"

definition vrrpInstance_type :: gotype where
  "vrrpInstance_type = TStruct ''vrrpInstance''
    [StructField ''State'' (TBasic ''string'')
       [(''yaml'', ''state''), (''description'', ''VRRP instance state ('primary' or 'backup')''), (''validate'', ''required'')],
     StructField ''Interface'' (TBasic ''string'')
       [(''yaml'', ''interface''), (''description'', ''Interface to send VRRP packets on''), (''validate'', ''required'')],
     StructField ''VRID'' (TBasic ''uint'')
       [(''yaml'', ''vrid''), (''description'', ''RFC3768 VRRP Virtual Router ID (1-255)''), (''validate'', ''required'')],
     StructField ''Priority'' (TBasic ''uint8'')
       [(''yaml'', ''priority''), (''description'', ''RFC3768 VRRP Priority''), (''validate'', ''required'')],
     StructField ''VIPs'' (TSlice (TBasic ''string''))
       [(''yaml'', ''vips''), (''description'', ''List of virtual IPs''), (''validate'', ''required,cidr'')],
     StructField ''VIPs4'' (TSlice (TBasic ''string''))
       [(''yaml'', ''-''), (''description'', ''-'')],
     StructField ''VIPs6'' (TSlice (TBasic ''string''))
       [(''yaml'', ''-''), (''description'', ''-'')]]"

definition augments_type :: gotype where
  "augments_type = TStruct ''augments''
    [StructField ''Accept4'' (TSlice (TBasic ''string''))
       [(''yaml'', ''accept4''), (''description'', ''List of BIRD protocols to import into the IPv4 table'')],
     StructField ''Accept6'' (TSlice (TBasic ''string''))
       [(''yaml'', ''accept6''), (''description'', ''List of BIRD protocols to import into the IPv6 table'')],
     StructField ''Reject4'' (TSlice (TBasic ''string''))
       [(''yaml'', ''reject4''), (''description'', ''List of BIRD protocols to not import into the IPv4 table'')],
     StructField ''Reject6'' (TSlice (TBasic ''string''))
       [(''yaml'', ''reject6''), (''description'', ''List of BIRD protocols to not import into the IPv6 table'')],
     StructField ''Statics'' (TMap (TBasic ''string'') (TBasic ''string''))
       [(''yaml'', ''statics''), (''description'', ''List of static routes to include in BIRD'')],
     StructField ''Statics4'' (TMap (TBasic ''string'') (TBasic ''string''))
       [(''yaml'', ''-''), (''description'', ''-'')],
     StructField ''Statics6'' (TMap (TBasic ''string'') (TBasic ''string''))
       [(''yaml'', ''-''), (''description'', ''-'')]]"

definition iface_type :: gotype where
  "iface_type = TStruct ''iface''
    [StructField ''Mtu'' (TBasic ''uint'')
       [(''yaml'', ''mtu''), (''description'', ''Interface MTU (Maximum Transmission Unit)''), (''default'', ''1500'')],
     StructField ''XDPRTR'' (TBasic ''bool'')
       [(''yaml'', ''xdprtr''), (''description'', ''Should XDPRTR be loaded on this interface?''), (''default'', ''false'')],
     StructField ''Addresses'' (TSlice (TBasic ''string''))
       [(''yaml'', ''addresses''), (''description'', ''List of addresses to add to this interface'')],
     StructField ''Dummy'' (TBasic ''bool'')
       [(''yaml'', ''dummy''), (''description'', ''Should a new dummy interface be created with this configuration?''), (''default'', ''false'')],
     StructField ''Down'' (TBasic ''bool'')
       [(''yaml'', ''down''), (''description'', ''Should the interface be set to a down state?''), (''default'', ''false'')]]"

definition config_type :: gotype where
  "config_type = TStruct ''config''
    [StructField ''ASN'' (TBasic ''uint'')
       [(''yaml'', ''asn''), (''description'', ''Autonomous System Number''), (''validate'', ''required'')],
     StructField ''Prefixes'' (TSlice (TBasic ''string''))
       [(''yaml'', ''prefixes''), (''description'', ''List of prefixes to announce'')],
     StructField ''Communities'' (TSlice (TBasic ''string''))
       [(''yaml'', ''communities''), (''description'', ''List of RFC1997 BGP communities'')],
     StructField ''LargeCommunities'' (TSlice (TBasic ''string''))
       [(''yaml'', ''large-communities''), (''description'', ''List of RFC8092 large BGP communities'')],
     StructField ''RouterID'' (TBasic ''string'')
       [(''yaml'', ''router-id''), (''description'', ''Router ID (dotted quad notation)''), (''validate'', ''required'')],
     StructField ''IRRServer'' (TBasic ''string'')
       [(''yaml'', ''irr-server''), (''description'', ''Internet routing registry server''), (''default'', ''rr.ntt.net'')],
     StructField ''RTRServer'' (TBasic ''string'')
       [(''yaml'', ''rtr-server''), (''description'', ''RPKI-to-router server''), (''default'', ''rtr.rpki.cloudflare.com'')],
     StructField ''RTRPort'' (TBasic ''int'')
       [(''yaml'', ''rtr-port''), (''description'', ''RPKI-to-router port''), (''default'', ''8282'')],
     StructField ''KeepFiltered'' (TBasic ''bool'')
       [(''yaml'', ''keep-filtered''), (''description'', ''Should filtered routes be kept in memory?''), (''default'', ''false'')],
     StructField ''MergePaths'' (TBasic ''bool'')
       [(''yaml'', ''merge-paths''), (''description'', ''Should best and equivalent non-best routes be imported for ECMP?''), (''default'', ''false'')],
     StructField ''Source4'' (TBasic ''string'')
       [(''yaml'', ''source4''), (''description'', ''Source IPv4 address'')],
     StructField ''Source6'' (TBasic ''string'')
       [(''yaml'', ''source6''), (''description'', ''Source IPv6 address'')],
     StructField ''AcceptDefault'' (TBasic ''bool'')
       [(''yaml'', ''accept-default''), (''description'', ''Should default routes be added to the bogon list?''), (''default'', ''false'')],
     StructField ''BirdDirectory'' (TBasic ''string'')
       [(''yaml'', ''bird-directory''), (''description'', ''Directory to store BIRD configs''), (''default'', ''/etc/bird/'')],
     StructField ''BirdSocket'' (TBasic ''string'')
       [(''yaml'', ''bird-socket''), (''description'', ''UNIX control socket for BIRD''), (''default'', ''/run/bird/bird.ctl'')],
     StructField ''KeepalivedConfig'' (TBasic ''string'')
       [(''yaml'', ''keepalived-config''), (''description'', ''Configuration file for keepalived''), (''default'', ''/etc/keepalived.conf'')],
     StructField ''WebUIFile'' (TBasic ''string'')
       [(''yaml'', ''web-ui-file''), (''description'', ''File to write web UI to''), (''default'', ''/run/wireframe.html'')],
     StructField ''PeeringDbQueryTimeout'' (TBasic ''uint'')
       [(''yaml'', ''peeringdb-query-timeout''), (''description'', ''PeeringDB query timeout in seconds''), (''default'', ''10'')],
     StructField ''IRRQueryTimeout'' (TBasic ''uint'')
       [(''yaml'', ''irr-query-timeout''), (''description'', ''IRR query timeout in seconds''), (''default'', ''30'')],
     StructField ''Peers'' (TMap (TBasic ''string'') (TPtr peer_type))
       [(''yaml'', ''peers''), (''description'', ''BGP peer configuration'')],
     StructField ''Interfaces'' (TMap (TBasic ''string'') iface_type)
       [(''yaml'', ''interfaces''), (''description'', ''Network interface configuration'')],
     StructField ''VRRPInstances'' (TSlice vrrpInstance_type)
       [(''yaml'', ''vrrp''), (''description'', ''List of VRRP instances'')],
     StructField ''Augments'' augments_type
       [(''yaml'', ''augments''), (''description'', ''Custom configuration options'')],
     StructField ''Prefixes4'' (TSlice (TBasic ''string''))
       [(''yaml'', ''-''), (''description'', ''-'')],
     StructField ''Prefixes6'' (TSlice (TBasic ''string''))
       [(''yaml'', ''-''), (''description'', ''-'')]]"

text \<open>
  \<open>log.Fatalf\<close> ends the process, and \<open>NumField\<close> panics on a type that is no struct:
  the result is the lines printed so far and how the run stopped, if it did.
\<close>

lemma fields_loop_children:
  "fields_loop fs out cs0 = (out', cs, st) \<Longrightarrow> c \<in> set cs \<Longrightarrow>
     c \<in> set cs0 \<or> (\<exists>f \<in> set fs. size c \<le> size (Type f))"
proof (induction fs arbitrary: out cs0)
  case Nil
  then show ?case by simp
next
  case (Cons f fs)
  show ?case
  proof (cases "Type f")
    case (TBasic x1)
    with Cons.prems Cons.IH show ?thesis
      by (fastforce simp: Let_def split: if_splits option.splits)
  next
    case (TSlice x2)
    with Cons.prems Cons.IH show ?thesis
      by (fastforce simp: Let_def split: if_splits option.splits)
  next
    case (TMap x31 x32)
    with Cons.prems Cons.IH show ?thesis
      by (fastforce simp: Let_def split: if_splits option.splits)
  next
    case (TPtr x4)
    with Cons.prems Cons.IH show ?thesis
      by (fastforce simp: Let_def split: if_splits option.splits)
  next
    case (TStruct x51 x52)
    with Cons.prems Cons.IH show ?thesis
      by (fastforce simp: Let_def split: if_splits option.splits)
  qed
qed

lemma size_field_in: "f \<in> set fs \<Longrightarrow> size (Type f) < size (TStruct n fs)"
  by (induction fs) (auto, (case_tac f; simp)+)

function documentConfigTypes :: "gotype \<Rightarrow> string list \<times> stop option" where
  "documentConfigTypes t =
     (let out = [''## '' @ remove_all (type_String t) ''main.'',
                 ''| Option | Type | Default | Validation | Description |'',
                 ''|--------|------|---------|------------|-------------|''];
          t' = (if Kind t = Ptr then the (Elem t) else t)
      in case t' of
           TStruct n fs \<Rightarrow>
             (case fields_loop fs out [] of
                (out1, childTypes, Some st) \<Rightarrow> (out1, Some st)
              | (out1, childTypes, None) \<Rightarrow>
                  children_loop (map documentConfigTypes childTypes) (out1 @ [[]]))
         | _ \<Rightarrow> (out, Some (Paniced ''reflect: NumField of non-struct type'')))"
  by pat_completeness auto
termination
proof (relation "measure size", goal_cases)
  case 1
  show ?case by simp
next
  case (2 t out t' n fs res out1 rest childTypes c)
  from 2 have fl: "fields_loop fs out [] = (res, rest, None)" by simp
  from fields_loop_children [OF fl "2"(7)]
  obtain f where f: "f \<in> set fs" "size c \<le> size (Type f)" by auto
  from size_field_in [OF f(1), of n] f(2) have "size c < size t'"
    using "2"(3) by simp
  moreover have "size t' \<le> size t"
    using "2"(2) by (cases t) auto
  ultimately show ?case by simp
qed

definition documentConfig :: "string list \<times> stop option" where
  "documentConfig = documentConfigTypes config_type"

section \<open>Facts about the decoder\<close>

lemma dec_fields_inv:
  assumes "dec_fields ty tab dn kvs r = Inr r'" and "P r"
    and "\<And>k st v r r'. map_of tab k = Some st \<Longrightarrow> P r \<Longrightarrow> st v r = Inr r' \<Longrightarrow> P r'"
  shows "P r'"
  using assms(1,2)
proof (induction kvs arbitrary: dn r)
  case Nil
  then show ?case by simp
next
  case (Cons kv kvs)
  obtain k v where kv: "kv = (k, v)" by (cases kv)
  from Cons.prems(1) kv obtain st r1 where
    st: "map_of tab k = Some st" "st v r = Inr r1"
    and rest: "dec_fields ty tab (k # dn) kvs r1 = Inr r'"
    by (auto split: option.splits if_splits sum.splits)
  from assms(3) [OF st(1) Cons.prems(2) st(2)] have "P r1" .
  from Cons.IH [OF rest this] show ?case .
qed

lemma dec_fields_known:
  assumes "dec_fields ty tab dn kvs r = Inr r'" and "(k, v) \<in> set kvs"
  shows "\<exists>st r1 r2. map_of tab k = Some st \<and> st v r1 = Inr r2"
  using assms
proof (induction kvs arbitrary: dn r)
  case Nil
  then show ?case by simp
next
  case (Cons kv kvs)
  obtain k' v' where kv: "kv = (k', v')" by (cases kv)
  from Cons.prems(1) kv obtain st r1 where
    st: "map_of tab k' = Some st" "st v' r = Inr r1"
    and rest: "dec_fields ty tab (k' # dn) kvs r1 = Inr r'"
    by (auto split: option.splits if_splits sum.splits)
  show ?case
  proof (cases "(k, v) = (k', v')")
    case True
    with st show ?thesis by blast
  next
    case False
    with Cons.prems(2) kv have "(k, v) \<in> set kvs" by auto
    from Cons.IH [OF rest this] show ?thesis .
  qed
qed

lemma dec_fields_done:
  assumes "dec_fields ty tab dn kvs r = Inr r'" and "k \<in> set dn"
  shows "k \<notin> fst ` set kvs"
  using assms
proof (induction kvs arbitrary: dn r)
  case Nil
  then show ?case by simp
next
  case (Cons kv kvs)
  obtain k' v' where kv: "kv = (k', v')" by (cases kv)
  from Cons.prems(1) kv obtain st r1 where
    st: "map_of tab k' = Some st" "st v' r = Inr r1" "k' \<notin> set dn"
    and rest: "dec_fields ty tab (k' # dn) kvs r1 = Inr r'"
    by (auto split: option.splits if_splits sum.splits)
  from Cons.prems(2) have "k \<in> set (k' # dn)" by simp
  from Cons.IH [OF rest this] st(3) Cons.prems(2) kv show ?case by auto
qed

lemma dec_fields_distinct:
  assumes "dec_fields ty tab dn kvs r = Inr r'"
  shows "distinct (map fst kvs)"
  using assms
proof (induction kvs arbitrary: dn r)
  case Nil
  then show ?case by simp
next
  case (Cons kv kvs)
  obtain k' v' where kv: "kv = (k', v')" by (cases kv)
  from Cons.prems(1) kv obtain st r1 where
    rest: "dec_fields ty tab (k' # dn) kvs r1 = Inr r'"
    by (auto split: option.splits if_splits sum.splits)
  from dec_fields_done [OF rest, of k'] have "k' \<notin> fst ` set kvs" by simp
  with Cons.IH [OF rest] kv show ?case by simp
qed

text \<open>A key that the mapping does not set leaves its field as it was.\<close>

lemma dec_fields_frame:
  assumes "dec_fields ty tab dn kvs r = Inr r'" and "k \<notin> fst ` set kvs"
    and "\<And>k' st v r r'. map_of tab k' = Some st \<Longrightarrow> k' \<noteq> k \<Longrightarrow> st v r = Inr r' \<Longrightarrow> g r' = g r"
  shows "g r' = g r"
  using assms(1,2)
proof (induction kvs arbitrary: dn r)
  case Nil
  then show ?case by simp
next
  case (Cons kv kvs)
  obtain k' v' where kv: "kv = (k', v')" by (cases kv)
  from Cons.prems(1) kv obtain st r1 where
    st: "map_of tab k' = Some st" "st v' r = Inr r1"
    and rest: "dec_fields ty tab (k' # dn) kvs r1 = Inr r'"
    by (auto split: option.splits if_splits sum.splits)
  from Cons.prems(2) kv have ne: "k' \<noteq> k" and notin: "k \<notin> fst ` set kvs" by auto
  from assms(3) [OF st(1) ne st(2)] have "g r1 = g r" .
  with Cons.IH [OF rest notin] show ?case by simp
qed

text \<open>A key that the mapping sets decides its field.\<close>

lemma dec_fields_explicit:
  assumes "dec_fields ty tab dn kvs r = Inr r'" and "(k, v) \<in> set kvs"
    and "map_of tab k = Some st"
    and "\<And>r r'. st v r = Inr r' \<Longrightarrow> d v = Inr (g r')"
    and "\<And>k' st v r r'. map_of tab k' = Some st \<Longrightarrow> k' \<noteq> k \<Longrightarrow> st v r = Inr r' \<Longrightarrow> g r' = g r"
  shows "d v = Inr (g r')"
  using assms(1,2)
proof (induction kvs arbitrary: dn r)
  case Nil
  then show ?case by simp
next
  case (Cons kv kvs)
  obtain k' v' where kv: "kv = (k', v')" by (cases kv)
  from Cons.prems(1) kv obtain st' r1 where
    st: "map_of tab k' = Some st'" "st' v' r = Inr r1"
    and rest: "dec_fields ty tab (k' # dn) kvs r1 = Inr r'"
    by (auto split: option.splits if_splits sum.splits)
  show ?case
  proof (cases "k' = k")
    case True
    from dec_fields_done [OF rest, of k] True have notin: "k \<notin> fst ` set kvs" by simp
    with Cons.prems(2) kv True have "v' = v" by force
    with st True assms(3) have "st v r = Inr r1" by simp
    from assms(4) [OF this] have "d v = Inr (g r1)" .
    moreover from dec_fields_frame [OF rest notin, of g] assms(5) have "g r' = g r1" by blast
    ultimately show ?thesis by simp
  next
    case False
    with Cons.prems(2) kv have "(k, v) \<in> set kvs" by auto
    from Cons.IH [OF rest this] show ?thesis .
  qed
qed

lemma dec_entries_keys: "dec_entries d kvs = Inr m \<Longrightarrow> map fst m = map fst kvs"
  by (induction d kvs arbitrary: m rule: dec_entries.induct) (auto split: sum.splits)

lemma dec_entries_value:
  "dec_entries d kvs = Inr m \<Longrightarrow> (k, x) \<in> set m \<Longrightarrow> \<exists>v. (k, v) \<in> set kvs \<and> d v = Inr x"
  by (induction d kvs arbitrary: m rule: dec_entries.induct) (fastforce split: sum.splits)+

lemma dec_entries_node:
  "dec_entries d kvs = Inr m \<Longrightarrow> (k, v) \<in> set kvs \<Longrightarrow> \<exists>x. (k, x) \<in> set m \<and> d v = Inr x"
  by (induction d kvs arbitrary: m rule: dec_entries.induct) (fastforce split: sum.splits)+

lemma dec_map_distinct: "dec_map d n = Inr m \<Longrightarrow> distinct (map fst m)"
  by (induction d n rule: dec_map.induct) (auto split: if_splits dest: dec_entries_keys)

lemma dec_map_value:
  "dec_map d n = Inr m \<Longrightarrow> (k, x) \<in> set m \<Longrightarrow> \<exists>v. (k, v) \<in> set (pairs_of n) \<and> d v = Inr x"
  by (induction d n rule: dec_map.induct) (auto split: if_splits dest: dec_entries_value)

lemma dec_map_node:
  "dec_map d n = Inr m \<Longrightarrow> (k, v) \<in> set (pairs_of n) \<Longrightarrow> \<exists>x. (k, x) \<in> set m \<and> d v = Inr x"
  by (induction d n rule: dec_map.induct) (auto split: if_splits dest: dec_entries_node)

lemma dec_list_value:
  "dec_list d xs = Inr ys \<Longrightarrow> y \<in> set ys \<Longrightarrow> \<exists>v \<in> set xs. d v = Inr y"
  by (induction xs arbitrary: ys) (auto split: sum.splits)

lemma dec_list_node:
  "dec_list d xs = Inr ys \<Longrightarrow> v \<in> set xs \<Longrightarrow> \<exists>y. d v = Inr y"
  by (induction xs arbitrary: ys) (auto split: sum.splits)

lemma dec_slice_value:
  "dec_slice d n = Inr ys \<Longrightarrow> y \<in> set ys \<Longrightarrow> \<exists>v \<in> set (items_of n). d v = Inr y"
  by (induction d n rule: dec_slice.induct) (auto dest: dec_list_value)

lemma dec_slice_node:
  "dec_slice d n = Inr ys \<Longrightarrow> v \<in> set (items_of n) \<Longrightarrow> \<exists>y. d v = Inr y"
  by (induction d n rule: dec_slice.induct) (auto dest: dec_list_node)

lemma dec_ptr_Some: "dec_ptr d n = Inr (Some x) \<Longrightarrow> d n = Inr x"
  by (induction d n rule: dec_ptr.induct) (auto split: sum.splits)

lemma setter_Inr: "setter d upd v r = Inr r' \<longleftrightarrow> (\<exists>x. d v = Inr x \<and> r' = upd (\<lambda>_. x) r)"
  by (auto simp: setter_def split: sum.splits)

section \<open>What the loops compute\<close>

definition is_cidr :: "env \<Rightarrow> string \<Rightarrow> bool" where
  "is_cidr E s = (net_ParseCIDR E s \<noteq> None)"

definition is_v4 :: "env \<Rightarrow> string \<Rightarrow> bool" where
  "is_v4 E s = (case net_ParseCIDR E s of None \<Rightarrow> False | Some ip \<Rightarrow> To4 ip \<noteq> None)"

definition is_v6 :: "env \<Rightarrow> string \<Rightarrow> bool" where
  "is_v6 E s = (case net_ParseCIDR E s of None \<Rightarrow> False | Some ip \<Rightarrow> To4 ip = None)"

definition prefix_sets :: "env \<Rightarrow> peer \<Rightarrow> peer" where
  "prefix_sets E p = p\<lparr>PrefixSet4 := PrefixSet4 p @ filter (is_v6 E) (peer.Prefixes p),
     PrefixSet6 := PrefixSet6 p @ filter (is_v4 E) (peer.Prefixes p)\<rparr>"

definition on_keys :: "string list \<Rightarrow> ('v \<Rightarrow> 'v) \<Rightarrow> (string \<times> 'v) list \<Rightarrow> (string \<times> 'v) list" where
  "on_keys ks f m = map (\<lambda>(k, v). if k \<in> set ks then (k, f v) else (k, v)) m"

lemma store_keys: "map fst (store k v m) = map fst m"
  by (induction m) auto

lemma store_map_of:
  "map_of (store k v m) k' = (if k' = k \<and> map_of m k \<noteq> None then Some v else map_of m k')"
  by (induction m) auto

lemma map_other_key:
  "k \<notin> fst ` set m \<Longrightarrow> map (\<lambda>(k', v'). if k' = k then (k', v) else (k', v')) m = m"
  by (induction m) auto

lemma store_as_map:
  "distinct (map fst m) \<Longrightarrow> store k v m = map (\<lambda>(k', v'). if k' = k then (k', v) else (k', v')) m"
  by (induction m) (auto simp: map_other_key)

lemma on_keys_Nil: "on_keys [] f m = m"
  by (induction m) (auto simp: on_keys_def)

lemma on_keys_absent: "map_of m k = None \<Longrightarrow> on_keys (k # ks) f m = on_keys ks f m"
  unfolding on_keys_def by (rule map_cong) (auto simp: map_of_eq_None_iff rev_image_eqI)

lemma on_keys_store:
  assumes "distinct (map fst m)" and "map_of m k = Some v" and "k \<notin> set ks"
  shows "on_keys ks f (store k (f v) m) = on_keys (k # ks) f m"
proof -
  have "(k', v') \<in> set m \<Longrightarrow> k' = k \<Longrightarrow> v' = v" for k' v'
    using assms(1,2) by (metis map_of_is_SomeI option.inject)
  then show ?thesis
    unfolding on_keys_def store_as_map [OF assms(1)] using assms(3)
    by (auto simp: comp_def intro!: map_cong)
qed

lemma origin_loop_cong:
  "net_ParseCIDR E = net_ParseCIDR E' \<Longrightarrow> origin_loop E ps c = origin_loop E' ps c"
  by (induction ps arbitrary: c) (auto split: option.splits)

lemma origin_loop_iff:
  "origin_loop E ps c = Ok c' \<longleftrightarrow>
     (\<forall>p \<in> set ps. is_cidr E p) \<and>
     c' = c\<lparr>Prefixes4 := Prefixes4 c @ filter (is_v6 E) ps,
            Prefixes6 := Prefixes6 c @ filter (is_v4 E) ps\<rparr>"
proof (induction ps arbitrary: c)
  case Nil
  then show ?case by auto
next
  case (Cons p ps)
  show ?case
  proof (cases "net_ParseCIDR E p")
    case None
    then show ?thesis by (simp add: is_cidr_def)
  next
    case (Some ip)
    then show ?thesis
      by (cases "To4 ip") (simp_all add: Cons.IH is_cidr_def is_v4_def is_v6_def)
  qed
qed

lemma origin_loop_no_panic: "origin_loop E ps c \<noteq> Panic e"
  by (induction ps arbitrary: c) (auto split: option.splits)

lemma prefix_set_loop_iff:
  "prefix_set_loop E ps p = Ok p' \<longleftrightarrow>
     (\<forall>x \<in> set ps. is_cidr E x) \<and>
     p' = p\<lparr>PrefixSet4 := PrefixSet4 p @ filter (is_v6 E) ps,
            PrefixSet6 := PrefixSet6 p @ filter (is_v4 E) ps\<rparr>"
proof (induction ps arbitrary: p)
  case Nil
  then show ?case by auto
next
  case (Cons x ps)
  show ?case
  proof (cases "net_ParseCIDR E x")
    case None
    then show ?thesis by (simp add: is_cidr_def)
  next
    case (Some ip)
    then show ?thesis
      by (cases "To4 ip") (simp_all add: Cons.IH is_cidr_def is_v4_def is_v6_def)
  qed
qed

lemma prefix_set_loop_no_panic: "prefix_set_loop E ps p \<noteq> Panic e"
  by (induction ps arbitrary: p) (auto split: option.splits)

lemma vips_loop_iff:
  "(\<exists>v'. vips_loop E vs v = Ok v') \<longleftrightarrow> (\<forall>x \<in> set vs. is_cidr E x)"
  by (induction vs arbitrary: v) (auto simp: is_cidr_def split: option.splits)

lemma vips_loop_State: "vips_loop E vs v = Ok v' \<Longrightarrow> State v' = State v"
  by (induction vs arbitrary: v) (auto split: option.splits if_splits)

lemma vips_loop_no_panic: "vips_loop E vs v \<noteq> Panic e"
  by (induction vs arbitrary: v) (auto split: option.splits)

lemma vrrp_body_iff:
  "(\<exists>v'. vrrp_body E v = Ok v') \<longleftrightarrow>
     (\<forall>x \<in> set (VIPs v). is_cidr E x) \<and> (State v = ''primary'' \<or> State v = ''backup'')"
proof (cases "vips_loop E (VIPs v) v")
  case (Ok v1)
  from vips_loop_State [OF Ok] vips_loop_iff [of E "VIPs v" v] Ok show ?thesis
    by (auto simp: vrrp_body_def vrrp_state_def)
next
  case (Err e)
  with vips_loop_iff [of E "VIPs v" v] show ?thesis
    by (auto simp: vrrp_body_def)
next
  case (Panic e)
  with vips_loop_no_panic show ?thesis by blast
qed

lemma vrrp_body_no_panic: "vrrp_body E v \<noteq> Panic e"
  using vips_loop_no_panic [of E "VIPs v" v]
  by (auto simp: vrrp_body_def vrrp_state_def split: res.splits)

lemma vrrp_loop_iff:
  "vrrp_loop E vs = Ok u \<longleftrightarrow>
     (\<forall>v \<in> set vs. (\<forall>x \<in> set (VIPs v). is_cidr E x) \<and> (State v = ''primary'' \<or> State v = ''backup''))"
proof (induction vs)
  case Nil
  then show ?case by simp
next
  case (Cons v vs)
  show ?case
  proof (cases "vrrp_body E v")
    case (Ok v')
    with vrrp_body_iff [of E v] Cons.IH show ?thesis by auto
  next
    case (Err e)
    with vrrp_body_iff [of E v] show ?thesis by auto
  next
    case (Panic e)
    with vrrp_body_no_panic show ?thesis by blast
  qed
qed

lemma vrrp_loop_no_panic: "vrrp_loop E vs \<noteq> Panic e"
  using vrrp_body_no_panic by (induction vs) (auto split: res.splits)

lemma on_keys_keys: "map fst (on_keys ks f m) = map fst m"
  by (induction m) (auto simp: on_keys_def)

lemma on_keys_all:
  "set (map fst m) \<subseteq> set ks \<Longrightarrow> on_keys ks f m = map (\<lambda>(k, v). (k, f v)) m"
  unfolding on_keys_def by (rule map_cong) auto

lemma absent_key: "map_of m k = None \<Longrightarrow> (k, v) \<notin> set m"
  by (force simp: map_of_eq_None_iff)

lemma peers_defaults_loop_eq:
  assumes "distinct (map fst peers)" and "distinct ks"
  shows "peers_defaults_loop ks peers =
     (if \<exists>k \<in> set ks. map_of peers k = Some None
      then Panic ''reflect: call of reflect.Value.Type on zero Value''
      else Ok (on_keys ks (map_option defaults_peer) peers))"
  using assms
proof (induction ks arbitrary: peers)
  case Nil
  then show ?case by (simp add: on_keys_Nil)
next
  case (Cons k ks)
  show ?case
  proof (cases "map_of peers k")
    case None
    with Cons show ?thesis by (auto simp: on_keys_absent dest: absent_key)
  next
    case (Some po)
    show ?thesis
    proof (cases po)
      case None
      with Some show ?thesis by simp
    next
      case (Some p)
      let ?peers = "store k (Some (defaults_peer p)) peers"
      have d: "distinct (map fst ?peers)" using Cons.prems(1) by (simp add: store_keys)
      have k: "k \<notin> set ks" and dk: "distinct ks" using Cons.prems(2) by auto
      have mo: "map_of peers k = Some (Some p)" using Some \<open>map_of peers k = Some po\<close> by simp
      have same: "\<And>k'. k' \<in> set ks \<Longrightarrow> map_of ?peers k' = map_of peers k'"
        using k by (auto simp: store_map_of)
      have "on_keys ks (map_option defaults_peer) ?peers
              = on_keys (k # ks) (map_option defaults_peer) peers"
        using on_keys_store [OF Cons.prems(1) mo k, of "map_option defaults_peer"] by simp
      with Cons.IH [OF d dk] mo same show ?thesis by simp
    qed
  qed
qed

lemma peers_prefixes_loop_cong:
  "net_ParseCIDR E = net_ParseCIDR E' \<Longrightarrow> prefix_set_loop E ps p = prefix_set_loop E' ps p"
  by (induction ps arbitrary: p) (auto split: option.splits)

lemma prefix_set_loop_Ok:
  "prefix_set_loop E (peer.Prefixes p) p = Ok p' \<longleftrightarrow>
     (\<forall>x \<in> set (peer.Prefixes p). is_cidr E x) \<and> p' = prefix_sets E p"
  by (simp add: prefix_set_loop_iff prefix_sets_def)

lemma peers_prefixes_loop_iff:
  assumes "distinct (map fst peers)" and "distinct ks"
  shows "peers_prefixes_loop E ks peers = Ok ps \<longleftrightarrow>
     (\<forall>k \<in> set ks. \<forall>po. map_of peers k = Some po \<longrightarrow>
        (\<exists>p. po = Some p \<and> (\<forall>x \<in> set (peer.Prefixes p). is_cidr E x))) \<and>
     ps = on_keys ks (map_option (prefix_sets E)) peers"
  using assms
proof (induction ks arbitrary: peers)
  case Nil
  then show ?case by (auto simp: on_keys_Nil)
next
  case (Cons k ks)
  show ?case
  proof (cases "map_of peers k")
    case None
    with Cons show ?thesis by (auto simp: on_keys_absent dest: absent_key)
  next
    case (Some po)
    show ?thesis
    proof (cases po)
      case None
      with Some show ?thesis by simp
    next
      case (Some p)
      have mo: "map_of peers k = Some (Some p)" using Some \<open>map_of peers k = Some po\<close> by simp
      show ?thesis
      proof (cases "\<forall>x \<in> set (peer.Prefixes p). is_cidr E x")
        case False
        with prefix_set_loop_Ok [of E p] have "\<And>p'. prefix_set_loop E (peer.Prefixes p) p \<noteq> Ok p'"
          by blast
        with mo False show ?thesis by (auto split: res.splits)
      next
        case True
        with prefix_set_loop_Ok [of E p]
        have run: "prefix_set_loop E (peer.Prefixes p) p = Ok (prefix_sets E p)" by blast
        let ?peers = "store k (Some (prefix_sets E p)) peers"
        have d: "distinct (map fst ?peers)" using Cons.prems(1) by (simp add: store_keys)
        have k: "k \<notin> set ks" and dk: "distinct ks" using Cons.prems(2) by auto
        have same: "\<And>k'. k' \<in> set ks \<Longrightarrow> map_of ?peers k' = map_of peers k'"
          using k by (auto simp: store_map_of)
        have "on_keys ks (map_option (prefix_sets E)) ?peers
                = on_keys (k # ks) (map_option (prefix_sets E)) peers"
          using on_keys_store [OF Cons.prems(1) mo k, of "map_option (prefix_sets E)"] by simp
        with Cons.IH [OF d dk] mo same run True show ?thesis by simp
      qed
    qed
  qed
qed

lemma store_all:
  "\<forall>(k, po) \<in> set m. P po \<Longrightarrow> P v \<Longrightarrow> \<forall>(k, po) \<in> set (store k' v m). P po"
  by (induction m) (auto split: if_splits)

lemma peers_prefixes_loop_panic:
  assumes "\<forall>(k, po) \<in> set peers. po \<noteq> None"
  shows "peers_prefixes_loop E ks peers \<noteq> Panic e"
  using assms
proof (induction ks arbitrary: peers)
  case Nil
  then show ?case by simp
next
  case (Cons k ks)
  show ?case
  proof (cases "map_of peers k")
    case None
    with Cons show ?thesis by simp
  next
    case (Some po)
    with Cons.prems obtain p where p: "po = Some p"
      by (cases po) (auto dest: map_of_SomeD)
    show ?thesis
    proof (cases "prefix_set_loop E (peer.Prefixes p) p")
      case (Ok p')
      have "\<forall>(k, po) \<in> set (store k (Some p') peers). po \<noteq> None"
        using store_all [of peers "\<lambda>po. po \<noteq> None" "Some p'" k] Cons.prems by simp
      from Cons.IH [OF this] Some p Ok show ?thesis by simp
    next
      case (Err x2)
      with Some p show ?thesis by simp
    next
      case (Panic x3)
      with prefix_set_loop_no_panic show ?thesis by blast
    qed
  qed
qed

text \<open>The static routes: what the two family maps hold after the loop.\<close>

definition statics_of :: "(string \<Rightarrow> bool) \<Rightarrow> (string \<times> string) list \<Rightarrow> string list \<Rightarrow>
    (string \<rightharpoonup> string) \<Rightarrow> (string \<rightharpoonup> string)" where
  "statics_of fam st ks m = (\<lambda>k. if k \<in> set ks \<and> fam k \<and> map_of st k \<noteq> None then map_of st k else m k)"

lemma statics_of_Nil: "statics_of fam st [] m = m"
  by (simp add: statics_of_def)

lemma statics_of_skip:
  "\<not> fam k \<or> map_of st k = None \<Longrightarrow> statics_of fam st (k # ks) m = statics_of fam st ks m"
  by (auto simp: statics_of_def fun_eq_iff)

lemma statics_of_step:
  "fam k \<Longrightarrow> map_of st k = Some nh \<Longrightarrow>
     statics_of fam st ks (m(k \<mapsto> nh)) = statics_of fam st (k # ks) m"
  by (auto simp: statics_of_def fun_eq_iff)

lemma statics_loop_Statics:
  "statics_loop E ks c = Ok c' \<Longrightarrow> Statics (Augments c') = Statics (Augments c)"
  by (induction ks arbitrary: c) (auto split: option.splits if_splits res.splits)

lemma statics_loop_iff:
  assumes "Statics4 (Augments c) = Some m4" and "Statics6 (Augments c) = Some m6"
  shows "statics_loop E ks c = Ok c' \<longleftrightarrow>
     (\<forall>k \<in> set ks. \<forall>nh. map_of (Statics (Augments c)) k = Some nh \<longrightarrow>
        is_cidr E k \<and> net_ParseIP E nh \<noteq> None) \<and>
     c' = c\<lparr>Augments := (Augments c)
            \<lparr>Statics4 := Some (statics_of (is_v4 E) (Statics (Augments c)) ks m4),
             Statics6 := Some (statics_of (is_v6 E) (Statics (Augments c)) ks m6)\<rparr>\<rparr>"
  using assms
proof (induction ks arbitrary: c m4 m6)
  case Nil
  then show ?case by (auto simp: statics_of_Nil)
next
  case (Cons k ks)
  let ?st = "Statics (Augments c)"
  show ?case
  proof (cases "map_of ?st k")
    case None
    with Cons.IH [OF Cons.prems] show ?thesis by (simp add: statics_of_skip)
  next
    case (Some nh)
    show ?thesis
    proof (cases "net_ParseCIDR E k")
      case None
      with Some show ?thesis by (auto simp: is_cidr_def)
    next
      case ip: (Some ip)
      show ?thesis
      proof (cases "net_ParseIP E nh")
        case None
        with Some ip show ?thesis by auto
      next
        case nhok: (Some a)
        show ?thesis
        proof (cases "To4 ip")
          case None
          let ?c = "c\<lparr>Augments := (Augments c)\<lparr>Statics6 := Some (m6(k \<mapsto> nh))\<rparr>\<rparr>"
          have v6: "is_v6 E k" "\<not> is_v4 E k" using ip None by (simp_all add: is_v6_def is_v4_def)
          have a: "Statics4 (Augments ?c) = Some m4" "Statics6 (Augments ?c) = Some (m6(k \<mapsto> nh))"
            "Statics (Augments ?c) = ?st"
            using Cons.prems by simp_all
          have step: "statics_loop E (k # ks) c = statics_loop E ks ?c"
            using Some ip nhok None Cons.prems by simp
          have s6: "statics_of (is_v6 E) ?st ks (m6(k \<mapsto> nh)) = statics_of (is_v6 E) ?st (k # ks) m6"
            using statics_of_step [of "is_v6 E" k ?st nh ks m6] v6(1) Some by simp
          have s4: "statics_of (is_v4 E) ?st (k # ks) m4 = statics_of (is_v4 E) ?st ks m4"
            using statics_of_skip [of "is_v4 E" k] v6(2) by simp
          show ?thesis
            unfolding step Cons.IH [OF a(1,2)] a(3) s6 s4
            using Some ip nhok by (auto simp: is_cidr_def)
        next
          case v4: (Some b)
          let ?c = "c\<lparr>Augments := (Augments c)\<lparr>Statics4 := Some (m4(k \<mapsto> nh))\<rparr>\<rparr>"
          have fam: "is_v4 E k" "\<not> is_v6 E k" using ip v4 by (simp_all add: is_v6_def is_v4_def)
          have a: "Statics4 (Augments ?c) = Some (m4(k \<mapsto> nh))" "Statics6 (Augments ?c) = Some m6"
            "Statics (Augments ?c) = ?st"
            using Cons.prems by simp_all
          have step: "statics_loop E (k # ks) c = statics_loop E ks ?c"
            using Some ip nhok v4 Cons.prems by simp
          have s4: "statics_of (is_v4 E) ?st ks (m4(k \<mapsto> nh)) = statics_of (is_v4 E) ?st (k # ks) m4"
            using statics_of_step [of "is_v4 E" k ?st nh ks m4] fam(1) Some by simp
          have s6: "statics_of (is_v6 E) ?st (k # ks) m6 = statics_of (is_v6 E) ?st ks m6"
            using statics_of_skip [of "is_v6 E" k] fam(2) by simp
          show ?thesis
            unfolding step Cons.IH [OF a(1,2)] a(3) s6 s4
            using Some ip nhok by (auto simp: is_cidr_def)
        qed
      qed
    qed
  qed
qed

lemma statics_loop_no_panic:
  assumes "Statics4 (Augments c) \<noteq> None" and "Statics6 (Augments c) \<noteq> None"
  shows "statics_loop E ks c \<noteq> Panic e"
  using assms
  by (induction ks arbitrary: c) (auto split: option.splits)

section \<open>What the decoder leaves in the derived fields\<close>

lemma dec_peer_derived:
  assumes "dec_peer n = Inr p"
  shows "PrefixSet4 p = [] \<and> PrefixSet6 p = []"
proof (cases n)
  case (YScalar k tx)
  with assms show ?thesis
    by (cases k) (auto simp: dec_peer_def zero_peer_def)
next
  case (YSeq xs)
  with assms show ?thesis by (simp add: dec_peer_def)
next
  case (YMap kvs)
  with assms have run: "dec_fields ''main.peer'' peer_fields [] kvs zero_peer = Inr p"
    by (simp add: dec_peer_def)
  show ?thesis
  proof (rule dec_fields_inv [OF run, where P = "\<lambda>p. PrefixSet4 p = [] \<and> PrefixSet6 p = []"])
    show "PrefixSet4 zero_peer = [] \<and> PrefixSet6 zero_peer = []"
      by (simp add: zero_peer_def)
  next
    fix k st v and r r' :: peer
    assume m: "map_of peer_fields k = Some st"
      and P: "PrefixSet4 r = [] \<and> PrefixSet6 r = []" "st v r = Inr r'"
    from map_of_SomeD [OF m] have "(k, st) \<in> set peer_fields" .
    with P show "PrefixSet4 r' = [] \<and> PrefixSet6 r' = []"
      by (auto simp: peer_fields_def setter_Inr)
  qed
qed

lemma dec_augments_derived:
  assumes "dec_augments n = Inr a"
  shows "distinct (map fst (Statics a)) \<and> Statics4 a = None \<and> Statics6 a = None"
proof (cases n)
  case (YScalar k tx)
  with assms show ?thesis
    by (cases k) (auto simp: dec_augments_def zero_augments_def)
next
  case (YSeq xs)
  with assms show ?thesis by (simp add: dec_augments_def)
next
  case (YMap kvs)
  with assms have run: "dec_fields ''main.augments'' augments_fields [] kvs zero_augments = Inr a"
    by (simp add: dec_augments_def)
  show ?thesis
  proof (rule dec_fields_inv [OF run,
        where P = "\<lambda>a. distinct (map fst (Statics a)) \<and> Statics4 a = None \<and> Statics6 a = None"])
    show "distinct (map fst (Statics zero_augments)) \<and> Statics4 zero_augments = None
        \<and> Statics6 zero_augments = None"
      by (simp add: zero_augments_def)
  next
    fix k st v and r r' :: augments
    assume m: "map_of augments_fields k = Some st"
      and P: "distinct (map fst (Statics r)) \<and> Statics4 r = None \<and> Statics6 r = None"
        "st v r = Inr r'"
    from map_of_SomeD [OF m] have "(k, st) \<in> set augments_fields" .
    with P show "distinct (map fst (Statics r')) \<and> Statics4 r' = None \<and> Statics6 r' = None"
      using dec_map_distinct [of dec_string v] by (auto simp: augments_fields_def setter_Inr)
  qed
qed

definition fresh :: "config \<Rightarrow> bool" where
  "fresh c = (distinct (map fst (Peers c)) \<and> distinct (map fst (Statics (Augments c)))
     \<and> Statics4 (Augments c) = None \<and> Statics6 (Augments c) = None
     \<and> Prefixes4 c = [] \<and> Prefixes6 c = []
     \<and> (\<forall>(k, po) \<in> set (Peers c). \<forall>p. po = Some p \<longrightarrow> PrefixSet4 p = [] \<and> PrefixSet6 p = []))"

lemma dec_peers_derived:
  assumes "dec_map (dec_ptr dec_peer) n = Inr m"
  shows "distinct (map fst m) \<and> (\<forall>(k, po) \<in> set m. \<forall>p. po = Some p \<longrightarrow> PrefixSet4 p = [] \<and> PrefixSet6 p = [])"
proof -
  have "PrefixSet4 p = [] \<and> PrefixSet6 p = []" if "(k, Some p) \<in> set m" for k p
  proof -
    from dec_map_value [OF assms that] obtain v where "dec_ptr dec_peer v = Inr (Some p)" by blast
    from dec_peer_derived [OF dec_ptr_Some [OF this]] show ?thesis .
  qed
  with dec_map_distinct [OF assms] show ?thesis by auto
qed

lemma config_setter_effect:
  assumes "(k, st) \<in> set config_fields" and "st v r = Inr r'"
  shows "(Peers r' = Peers r \<or> dec_map (dec_ptr dec_peer) v = Inr (Peers r'))
     \<and> (Augments r' = Augments r \<or> dec_augments v = Inr (Augments r'))
     \<and> Prefixes4 r' = Prefixes4 r \<and> Prefixes6 r' = Prefixes6 r"
  using assms by (auto simp: config_fields_def setter_Inr)

lemma unmarshal_fresh:
  assumes "yaml_UnmarshalStrict doc = Inr c"
  shows "fresh c"
proof (cases doc)
  case (YScalar k tx)
  with assms show ?thesis
    by (cases k) (auto simp: yaml_UnmarshalStrict_def zero_config_def zero_augments_def fresh_def)
next
  case (YSeq xs)
  with assms show ?thesis by (simp add: yaml_UnmarshalStrict_def)
next
  case (YMap kvs)
  with assms have run: "dec_fields ''main.config'' config_fields [] kvs zero_config = Inr c"
    by (simp add: yaml_UnmarshalStrict_def)
  show ?thesis
  proof (rule dec_fields_inv [OF run, where P = fresh])
    show "fresh zero_config"
      by (simp add: zero_config_def zero_augments_def fresh_def)
  next
    fix k st v and r r' :: config
    assume m: "map_of config_fields k = Some st" and P: "fresh r" and st: "st v r = Inr r'"
    from config_setter_effect [OF map_of_SomeD [OF m] st]
    have peers: "Peers r' = Peers r \<or> dec_map (dec_ptr dec_peer) v = Inr (Peers r')"
      and aug: "Augments r' = Augments r \<or> dec_augments v = Inr (Augments r')"
      and pfx: "Prefixes4 r' = Prefixes4 r" "Prefixes6 r' = Prefixes6 r"
      by blast+
    from peers P have "distinct (map fst (Peers r')) \<and>
        (\<forall>(k, po) \<in> set (Peers r'). \<forall>p. po = Some p \<longrightarrow> PrefixSet4 p = [] \<and> PrefixSet6 p = [])"
      using dec_peers_derived [of v "Peers r'"] by (fastforce simp: fresh_def)
    moreover from aug P have "distinct (map fst (Statics (Augments r')))
        \<and> Statics4 (Augments r') = None \<and> Statics6 (Augments r') = None"
      using dec_augments_derived [of v "Augments r'"] by (auto simp: fresh_def)
    ultimately show "fresh r'"
      using pfx P by (simp add: fresh_def)
  qed
qed

section \<open>The loader, free of the order of the visits\<close>

definition filled :: "config \<Rightarrow> config" where
  "filled c = (defaults_config c)\<lparr>Peers := map (\<lambda>(k, po). (k, map_option defaults_peer po)) (Peers c)\<rparr>"

definition normal_ok :: "env \<Rightarrow> config \<Rightarrow> bool" where
  "normal_ok E c =
     ((\<forall>p \<in> set (config.Prefixes c). is_cidr E p)
      \<and> (\<forall>(k, nh) \<in> set (Statics (Augments c)). is_cidr E k \<and> net_ParseIP E nh \<noteq> None)
      \<and> (\<forall>v \<in> set (VRRPInstances c).
            (\<forall>x \<in> set (VIPs v). is_cidr E x) \<and> (State v = ''primary'' \<or> State v = ''backup''))
      \<and> (\<forall>(k, po) \<in> set (Peers c). \<exists>p. po = Some p \<and> (\<forall>x \<in> set (peer.Prefixes p). is_cidr E x)))"

definition normal_form :: "env \<Rightarrow> config \<Rightarrow> config" where
  "normal_form E c = c
     \<lparr>Prefixes4 := Prefixes4 c @ filter (is_v6 E) (config.Prefixes c),
      Prefixes6 := Prefixes6 c @ filter (is_v4 E) (config.Prefixes c),
      Augments := (Augments c)
        \<lparr>Statics4 := Some (\<lambda>k. if is_v4 E k then map_of (Statics (Augments c)) k else None),
         Statics6 := Some (\<lambda>k. if is_v6 E k then map_of (Statics (Augments c)) k else None)\<rparr>,
      Peers := map (\<lambda>(k, po). (k, map_option (prefix_sets E) po)) (Peers c)\<rparr>"

lemma range_ok_set: "range_ok f \<Longrightarrow> distinct ks \<Longrightarrow> set (f ks) = set ks"
  by (simp add: range_ok_def)

lemma range_ok_distinct: "range_ok f \<Longrightarrow> distinct ks \<Longrightarrow> distinct (f ks)"
  by (simp add: range_ok_def)

lemma statics_of_all:
  assumes "set ks = fst ` set st"
  shows "statics_of fam st ks Map.empty = (\<lambda>k. if fam k then map_of st k else None)"
proof
  fix k
  show "statics_of fam st ks Map.empty k = (if fam k then map_of st k else None)"
  proof (cases "map_of st k")
    case None
    then show ?thesis by (simp add: statics_of_def)
  next
    case (Some v)
    from map_of_SomeD [OF this] have "k \<in> fst ` set st" by force
    with assms Some show ?thesis by (simp add: statics_of_def)
  qed
qed

lemma fill_defaults_iff:
  assumes "range_ok (range_Peers_defaults E)" and "distinct (map fst (Peers c))"
  shows "fill_defaults E c = Ok c' \<longleftrightarrow> (\<forall>(k, po) \<in> set (Peers c). po \<noteq> None) \<and> c' = filled c"
proof -
  let ?ks = "range_Peers_defaults E (map fst (Peers c))"
  have ks: "set ?ks = set (map fst (Peers c))" "distinct ?ks"
    using assms range_ok_set range_ok_distinct by blast+
  have nil: "(\<exists>k \<in> set ?ks. map_of (Peers c) k = Some None) \<longleftrightarrow> (\<exists>(k, po) \<in> set (Peers c). po = None)"
    using assms(2) ks(1) by force
  have all: "on_keys ?ks (map_option defaults_peer) (Peers c)
      = map (\<lambda>(k, po). (k, map_option defaults_peer po)) (Peers c)"
    using ks(1) by (intro on_keys_all) simp
  have P: "Peers (defaults_config c) = Peers c" by (simp add: defaults_config_def)
  have run: "peers_defaults_loop ?ks (Peers c) =
      (if \<exists>(k, po) \<in> set (Peers c). po = None
       then Panic ''reflect: call of reflect.Value.Type on zero Value''
       else Ok (map (\<lambda>(k, po). (k, map_option defaults_peer po)) (Peers c)))"
    using peers_defaults_loop_eq [OF assms(2) ks(2)] nil all by simp
  show ?thesis
    by (auto simp: fill_defaults_def defaults_Set_config_def P run filled_def)
qed

lemma fill_defaults_no_error: "fill_defaults E c \<noteq> Err e"
proof -
  have "peers_defaults_loop ks ps \<noteq> Err e" for ks ps
  proof (induction ks arbitrary: ps)
    case Nil
    then show ?case by simp
  next
    case (Cons k ks)
    show ?case
    proof (cases "map_of ps k")
      case None
      with Cons show ?thesis by simp
    next
      case (Some po)
      with Cons show ?thesis by (cases po) simp_all
    qed
  qed
  then show ?thesis
    by (auto simp: fill_defaults_def defaults_Set_config_def split: res.splits)
qed

lemma normalize_iff:
  assumes "range_ok (range_Statics E)" and "range_ok (range_Peers_prefixes E)"
    and "distinct (map fst (Peers c))" and "distinct (map fst (Statics (Augments c)))"
  shows "normalize E c = Ok c' \<longleftrightarrow> normal_ok E c \<and> c' = normal_form E c"
proof -
  let ?st = "Statics (Augments c)"
  let ?c1 = "c\<lparr>Prefixes4 := Prefixes4 c @ filter (is_v6 E) (config.Prefixes c),
               Prefixes6 := Prefixes6 c @ filter (is_v4 E) (config.Prefixes c)\<rparr>"
  let ?c1i = "?c1\<lparr>Augments := (Augments ?c1)\<lparr>Statics4 := Some Map.empty, Statics6 := Some Map.empty\<rparr>\<rparr>"
  let ?ks = "range_Statics E (map fst ?st)"
  let ?c2 = "?c1i\<lparr>Augments := (Augments ?c1i)
      \<lparr>Statics4 := Some (\<lambda>k. if is_v4 E k then map_of ?st k else None),
       Statics6 := Some (\<lambda>k. if is_v6 E k then map_of ?st k else None)\<rparr>\<rparr>"
  let ?ps = "range_Peers_prefixes E (map fst (Peers c))"
  have ks: "set ?ks = fst ` set ?st"
    using range_ok_set [OF assms(1,4)] by simp
  have ps: "set ?ps = set (map fst (Peers c))" "distinct ?ps"
    using assms range_ok_set range_ok_distinct by blast+
  have A: "origin_loop E (config.Prefixes c) c = Ok x \<longleftrightarrow>
      (\<forall>p \<in> set (config.Prefixes c). is_cidr E p) \<and> x = ?c1" for x
    by (rule origin_loop_iff)
  have B: "statics_loop E ?ks ?c1i = Ok x \<longleftrightarrow>
      (\<forall>(k, nh) \<in> set ?st. is_cidr E k \<and> net_ParseIP E nh \<noteq> None) \<and> x = ?c2" for x
  proof -
    have "(\<forall>k \<in> set ?ks. \<forall>nh. map_of ?st k = Some nh \<longrightarrow> is_cidr E k \<and> net_ParseIP E nh \<noteq> None)
        \<longleftrightarrow> (\<forall>(k, nh) \<in> set ?st. is_cidr E k \<and> net_ParseIP E nh \<noteq> None)"
      using ks assms(4) by force
    then show ?thesis
      using statics_loop_iff [of ?c1i Map.empty Map.empty E ?ks x]
      by (simp add: statics_of_all [OF ks])
  qed
  have C: "vrrp_loop E (VRRPInstances c) = Ok u \<longleftrightarrow>
      (\<forall>v \<in> set (VRRPInstances c).
         (\<forall>x \<in> set (VIPs v). is_cidr E x) \<and> (State v = ''primary'' \<or> State v = ''backup''))" for u
    by (rule vrrp_loop_iff)
  have D: "peers_prefixes_loop E ?ps (Peers c) = Ok x \<longleftrightarrow>
      (\<forall>(k, po) \<in> set (Peers c). \<exists>p. po = Some p \<and> (\<forall>x \<in> set (peer.Prefixes p). is_cidr E x))
      \<and> x = map (\<lambda>(k, po). (k, map_option (prefix_sets E) po)) (Peers c)" for x
  proof -
    have "(\<forall>k \<in> set ?ps. \<forall>po. map_of (Peers c) k = Some po \<longrightarrow>
            (\<exists>p. po = Some p \<and> (\<forall>x \<in> set (peer.Prefixes p). is_cidr E x)))
        \<longleftrightarrow> (\<forall>(k, po) \<in> set (Peers c). \<exists>p. po = Some p \<and> (\<forall>x \<in> set (peer.Prefixes p). is_cidr E x))"
      using ps(1) assms(3) by force
    moreover have "on_keys ?ps (map_option (prefix_sets E)) (Peers c)
        = map (\<lambda>(k, po). (k, map_option (prefix_sets E) po)) (Peers c)"
      using ps(1) by (intro on_keys_all) simp
    ultimately show ?thesis
      using peers_prefixes_loop_iff [OF assms(3) ps(2), of E x] by simp
  qed
  have nf: "normal_form E c = ?c2\<lparr>Peers := map (\<lambda>(k, po). (k, map_option (prefix_sets E) po)) (Peers c)\<rparr>"
    by (simp add: normal_form_def)
  show ?thesis
  proof (cases "normal_ok E c")
    case True
    then have a: "origin_loop E (config.Prefixes c) c = Ok ?c1"
      and b: "statics_loop E ?ks ?c1i = Ok ?c2"
      and c: "vrrp_loop E (VRRPInstances c) = Ok ()"
      and d: "peers_prefixes_loop E ?ps (Peers c)
                = Ok (map (\<lambda>(k, po). (k, map_option (prefix_sets E) po)) (Peers c))"
      unfolding A B C D normal_ok_def by simp_all
    have "normalize E c = Ok (normal_form E c)"
      unfolding normalize_def a using b c d by (simp add: nf)
    with True show ?thesis by auto
  next
    case False
    have "normalize E c \<noteq> Ok c'"
    proof
      assume ok: "normalize E c = Ok c'"
      then obtain c1 where a: "origin_loop E (config.Prefixes c) c = Ok c1"
        by (auto simp: normalize_def split: res.splits)
      with A have c1: "c1 = ?c1" and oka: "\<forall>p \<in> set (config.Prefixes c). is_cidr E p" by auto
      from ok a c1 obtain c2 where b: "statics_loop E ?ks ?c1i = Ok c2"
        by (auto simp: normalize_def split: res.splits)
      with B have c2: "c2 = ?c2"
        and okb: "\<forall>(k, nh) \<in> set ?st. is_cidr E k \<and> net_ParseIP E nh \<noteq> None" by auto
      from ok a c1 b c2 obtain u where c: "vrrp_loop E (VRRPInstances c) = Ok u"
        by (auto simp: normalize_def split: res.splits)
      from ok a c1 b c2 c obtain x where d: "peers_prefixes_loop E ?ps (Peers c) = Ok x"
        by (auto simp: normalize_def split: res.splits)
      from oka okb c [unfolded C] d [unfolded D] have "normal_ok E c"
        by (simp add: normal_ok_def)
      with False show False ..
    qed
    with False show ?thesis by simp
  qed
qed

lemma map_values_keys: "map (fst \<circ> (\<lambda>(k, v). (k, f v))) m = map fst m"
  by (induction m) auto

lemma fresh_filled:
  assumes "fresh c"
  shows "distinct (map fst (Peers (filled c)))"
    and "distinct (map fst (Statics (Augments (filled c))))"
    and "Prefixes4 (filled c) = []" and "Prefixes6 (filled c) = []"
    and "config.Prefixes (filled c) = config.Prefixes c"
    and "VRRPInstances (filled c) = VRRPInstances c"
    and "Augments (filled c) = Augments c"
proof -
  from assms show "distinct (map fst (Peers (filled c)))"
    by (simp add: filled_def fresh_def map_values_keys)
  from assms show "distinct (map fst (Statics (Augments (filled c))))"
    and "Prefixes4 (filled c) = []" and "Prefixes6 (filled c) = []"
    and "config.Prefixes (filled c) = config.Prefixes c"
    and "VRRPInstances (filled c) = VRRPInstances c"
    and "Augments (filled c) = Augments c"
    by (simp_all add: filled_def fresh_def defaults_config_def)
qed

lemma loadConfig_iff:
  assumes "env_ok E"
  shows "loadConfig E doc = Returns (Some c, None) \<longleftrightarrow>
     (\<exists>c0. yaml_UnmarshalStrict doc = Inr c0 \<and> validate_Struct E c0 = None
        \<and> (\<forall>(k, po) \<in> set (Peers c0). po \<noteq> None)
        \<and> normal_ok E (filled c0) \<and> c = normal_form E (filled c0))"
proof (cases "yaml_UnmarshalStrict doc")
  case (Inl e)
  then show ?thesis by (simp add: loadConfig_def)
next
  case (Inr c0)
  note fr = unmarshal_fresh [OF Inr]
  from assms have ro: "range_ok (range_Peers_defaults E)" "range_ok (range_Statics E)"
    "range_ok (range_Peers_prefixes E)"
    by (simp_all add: env_ok_def)
  from fr have d: "distinct (map fst (Peers c0))" by (simp add: fresh_def)
  note F = fill_defaults_iff [OF ro(1) d]
  note N = normalize_iff [OF ro(2,3) fresh_filled(1,2) [OF fr]]
  show ?thesis
  proof (cases "validate_Struct E c0")
    case (Some e)
    with Inr show ?thesis by (simp add: loadConfig_def)
  next
    case None
    show ?thesis
    proof (cases "fill_defaults E c0")
      case (Ok c1)
      with F [of c1] have c1: "c1 = filled c0" and nn: "\<forall>(k, po) \<in> set (Peers c0). po \<noteq> None"
        by simp_all
      show ?thesis
      proof (cases "normalize E c1")
        case ok: (Ok c2)
        with N [of c2] c1 have "normal_ok E (filled c0)" "c2 = normal_form E (filled c0)" by simp_all
        with Inr None Ok ok nn show ?thesis by (auto simp: loadConfig_def)
      next
        case (Err e)
        with N [of "normal_form E (filled c0)"] c1 have "\<not> normal_ok E (filled c0)" by simp
        with Inr None Ok Err show ?thesis by (auto simp: loadConfig_def)
      next
        case (Panic e)
        with N [of "normal_form E (filled c0)"] c1 have "\<not> normal_ok E (filled c0)" by simp
        with Inr None Ok Panic show ?thesis by (auto simp: loadConfig_def)
      qed
    next
      case (Err e)
      with F [of "filled c0"] have "\<not> (\<forall>(k, po) \<in> set (Peers c0). po \<noteq> None)" by simp
      with Inr None Err show ?thesis by (auto simp: loadConfig_def)
    next
      case (Panic e)
      with F [of "filled c0"] have "\<not> (\<forall>(k, po) \<in> set (Peers c0). po \<noteq> None)" by simp
      with Inr None Panic show ?thesis by (auto simp: loadConfig_def)
    qed
  qed
qed

lemma family_cases: "is_cidr E s \<Longrightarrow> is_v4 E s \<noteq> is_v6 E s"
  by (auto simp: is_cidr_def is_v4_def is_v6_def)

lemma partition_sets:
  assumes "\<forall>x \<in> set xs. is_cidr E x"
  shows "set (filter (is_v6 E) xs) \<union> set (filter (is_v4 E) xs) = set xs"
    and "set (filter (is_v6 E) xs) \<inter> set (filter (is_v4 E) xs) = {}"
  using assms family_cases [of E] by auto

text \<open>
  Claim C1. After a successful load the derived lists \<open>Prefixes4\<close> and \<open>Prefixes6\<close>,
  taken as sets, are disjoint and their union is \<open>Prefixes\<close>; and every peer of the
  returned configuration is there (no nil pointer), with \<open>PrefixSet4\<close> and \<open>PrefixSet6\<close>
  disjoint and their union that peer's \<open>Prefixes\<close>. (A load succeeds only if every entry
  parses as a CIDR.)
\<close>

theorem family_partition:
  assumes "env_ok E" and "loadConfig E doc = Returns (Some c, None)"
  shows "set (Prefixes4 c) \<union> set (Prefixes6 c) = set (config.Prefixes c)
     \<and> set (Prefixes4 c) \<inter> set (Prefixes6 c) = {}
     \<and> (\<forall>(name, po) \<in> set (Peers c). \<exists>p. po = Some p
           \<and> set (PrefixSet4 p) \<union> set (PrefixSet6 p) = set (peer.Prefixes p)
           \<and> set (PrefixSet4 p) \<inter> set (PrefixSet6 p) = {})"
proof -
  from assms obtain c0 where c0: "yaml_UnmarshalStrict doc = Inr c0"
    and ok: "normal_ok E (filled c0)" and c: "c = normal_form E (filled c0)"
    unfolding loadConfig_iff [OF assms(1)] by blast
  note fr = unmarshal_fresh [OF c0]
  note ff = fresh_filled [OF fr]
  from ok have root: "\<forall>x \<in> set (config.Prefixes (filled c0)). is_cidr E x"
    by (simp add: normal_ok_def)
  have "Prefixes4 c = filter (is_v6 E) (config.Prefixes (filled c0))"
    "Prefixes6 c = filter (is_v4 E) (config.Prefixes (filled c0))"
    "config.Prefixes c = config.Prefixes (filled c0)"
    using ff(3,4) by (simp_all add: c normal_form_def)
  with partition_sets [OF root]
  have A: "set (Prefixes4 c) \<union> set (Prefixes6 c) = set (config.Prefixes c)
     \<and> set (Prefixes4 c) \<inter> set (Prefixes6 c) = {}" by simp
  have B: "\<exists>p. po = Some p
           \<and> set (PrefixSet4 p) \<union> set (PrefixSet6 p) = set (peer.Prefixes p)
           \<and> set (PrefixSet4 p) \<inter> set (PrefixSet6 p) = {}" if "(name, po) \<in> set (Peers c)" for name po
  proof -
    from that obtain po1 where po1: "(name, po1) \<in> set (Peers (filled c0))"
      and po: "po = map_option (prefix_sets E) po1"
      by (auto simp: c normal_form_def)
    from po1 ok obtain p1 where p1: "po1 = Some p1" "\<forall>x \<in> set (peer.Prefixes p1). is_cidr E x"
      by (auto simp: normal_ok_def)
    from po1 obtain b where b: "(name, b) \<in> set (Peers c0)" "po1 = map_option defaults_peer b"
      by (auto simp: filled_def)
    with p1(1) obtain p0 where p0: "(name, Some p0) \<in> set (Peers c0)" "p1 = defaults_peer p0"
      by (cases b) auto
    from fr p0(1) have "PrefixSet4 p0 = [] \<and> PrefixSet6 p0 = []"
      by (auto simp: fresh_def)
    then have e: "PrefixSet4 p1 = []" "PrefixSet6 p1 = []"
      by (simp_all add: p0(2) defaults_peer_def)
    have "PrefixSet4 (prefix_sets E p1) = filter (is_v6 E) (peer.Prefixes p1)"
      "PrefixSet6 (prefix_sets E p1) = filter (is_v4 E) (peer.Prefixes p1)"
      "peer.Prefixes (prefix_sets E p1) = peer.Prefixes p1"
      using e by (simp_all add: prefix_sets_def)
    with partition_sets [OF p1(2)] po p1(1) show ?thesis by simp
  qed
  from A B show ?thesis by blast
qed

text \<open>
  Claim C6. After a successful load \<open>Augments.Statics4\<close> and \<open>Augments.Statics6\<close> are
  both non-nil, whatever the input holds under \<open>statics\<close>; together they have exactly
  the entries of \<open>Augments.Statics\<close>, no key is in both, every key of \<open>Statics4\<close>
  parses to an address with a 4-byte form and every key of \<open>Statics6\<close> to one without.
\<close>

theorem statics_partition:
  assumes "env_ok E" and "loadConfig E doc = Returns (Some c, None)"
  shows "\<exists>m4 m6. Statics4 (Augments c) = Some m4 \<and> Statics6 (Augments c) = Some m6
     \<and> m4 ++ m6 = map_of (Statics (Augments c)) \<and> dom m4 \<inter> dom m6 = {}
     \<and> (\<forall>k \<in> dom m4. \<exists>ip. net_ParseCIDR E k = Some ip \<and> To4 ip \<noteq> None)
     \<and> (\<forall>k \<in> dom m6. \<exists>ip. net_ParseCIDR E k = Some ip \<and> To4 ip = None)"
proof -
  from assms obtain c0 where c0: "yaml_UnmarshalStrict doc = Inr c0"
    and ok: "normal_ok E (filled c0)" and c: "c = normal_form E (filled c0)"
    unfolding loadConfig_iff [OF assms(1)] by blast
  let ?st = "Statics (Augments (filled c0))"
  let ?m4 = "\<lambda>k. if is_v4 E k then map_of ?st k else None"
  let ?m6 = "\<lambda>k. if is_v6 E k then map_of ?st k else None"
  have s: "Statics4 (Augments c) = Some ?m4" "Statics6 (Augments c) = Some ?m6"
    "Statics (Augments c) = ?st"
    by (simp_all add: c normal_form_def)
  from ok have valid: "\<And>k nh. map_of ?st k = Some nh \<Longrightarrow> is_cidr E k"
    by (auto simp: normal_ok_def dest!: map_of_SomeD)
  have "(?m4 ++ ?m6) k = map_of ?st k" for k
    using valid [of k] family_cases [of E k]
    by (cases "map_of ?st k") (auto simp: map_add_def)
  then have "?m4 ++ ?m6 = map_of ?st" by (rule ext)
  moreover have "dom ?m4 \<inter> dom ?m6 = {}"
    using valid family_cases [of E] by (auto simp: dom_def split: if_splits)
  moreover have "\<forall>k \<in> dom ?m4. \<exists>ip. net_ParseCIDR E k = Some ip \<and> To4 ip \<noteq> None"
    by (auto simp: dom_def is_v4_def split: if_splits option.splits)
  moreover have "\<forall>k \<in> dom ?m6. \<exists>ip. net_ParseCIDR E k = Some ip \<and> To4 ip = None"
    by (auto simp: dom_def is_v6_def split: if_splits option.splits)
  ultimately show ?thesis using s by simp
qed

lemma same_parsers:
  assumes "net_ParseCIDR E2 = net_ParseCIDR E1" and "net_ParseIP E2 = net_ParseIP E1"
  shows "normal_ok E2 = normal_ok E1" and "normal_form E2 = normal_form E1"
proof -
  have f: "is_cidr E2 = is_cidr E1" "is_v4 E2 = is_v4 E1" "is_v6 E2 = is_v6 E1"
    using assms(1) by (simp_all add: fun_eq_iff is_cidr_def is_v4_def is_v6_def)
  have g: "prefix_sets E2 = prefix_sets E1"
    by (rule ext) (simp add: prefix_sets_def f)
  show "normal_ok E2 = normal_ok E1"
    by (rule ext) (simp add: normal_ok_def f assms(2))
  show "normal_form E2 = normal_form E1"
    by (rule ext) (simp add: normal_form_def f g)
qed

text \<open>
  Claim C10. Two runs on the same input differ only in the order in which each
  \<open>range\<close> over a map visits the keys. They agree on whether loading succeeds, and
  when both succeed they return equal configurations: the derived lists in the same
  order, the derived maps with the same entries.
\<close>

theorem loadConfig_deterministic:
  assumes "env_ok E1" and "env_ok E2"
    and "net_ParseCIDR E2 = net_ParseCIDR E1" and "net_ParseIP E2 = net_ParseIP E1"
    and "validate_Struct E2 = validate_Struct E1"
  shows "((\<exists>c. loadConfig E1 doc = Returns (Some c, None)) \<longleftrightarrow>
          (\<exists>c. loadConfig E2 doc = Returns (Some c, None)))
     \<and> (\<forall>c1 c2. loadConfig E1 doc = Returns (Some c1, None) \<longrightarrow>
           loadConfig E2 doc = Returns (Some c2, None) \<longrightarrow> c1 = c2)"
  unfolding loadConfig_iff [OF assms(1)] loadConfig_iff [OF assms(2)]
    same_parsers [OF assms(3,4)] assms(5)
  by auto

section \<open>A worked example\<close>

text \<open>
  A document with two origin prefixes, two peers (one sets \<open>local-pref\<close> to 0), one VRRP
  instance and two static routes; what the decoder makes of it; and what \<open>loadConfig\<close>
  returns for it, whatever the order of the visits.
\<close>

definition str :: "string \<Rightarrow> yaml" where
  "str s = YScalar SStr s"

definition example_doc :: yaml where
  "example_doc = YMap
    [(''asn'', YScalar (SInt 65001) ''65001''),
     (''router-id'', str ''192.0.2.1''),
     (''prefixes'', YSeq [str ''192.0.2.0/24'', str ''2001:db8::/32'']),
     (''peers'', YMap
        [(''upstream'', YMap
            [(''asn'', YScalar (SInt 65002) ''65002''),
             (''neighbors'', YSeq [str ''203.0.113.1'']),
             (''local-pref'', YScalar (SInt 0) ''0''),
             (''prefixes'', YSeq [str ''198.51.100.0/24'', str ''2001:db8:1::/48''])]),
         (''ix'', YMap
            [(''asn'', YScalar (SInt 65003) ''65003''),
             (''neighbors'', YSeq [str ''2001:db8:ffff::1'']),
             (''local-pref'', YScalar (SInt 200) ''200'')])]),
     (''vrrp'', YSeq
        [YMap [(''state'', str ''primary''), (''interface'', str ''eth0''),
               (''vrid'', YScalar (SInt 1) ''1''), (''priority'', YScalar (SInt 255) ''255''),
               (''vips'', YSeq [str ''192.0.2.254/24''])]]),
     (''augments'', YMap
        [(''statics'', YMap
            [(''203.0.113.0/24'', str ''192.0.2.2''),
             (''2001:db8:2::/48'', str ''2001:db8::2'')])])]"


definition example_c0 :: config where
  "example_c0 = zero_config
    \<lparr>config.ASN := 65001,
     config.Prefixes := [''192.0.2.0/24'', ''2001:db8::/32''],
     RouterID := ''192.0.2.1'',
     Peers :=
       [(''upstream'', Some (zero_peer
           \<lparr>peer.ASN := 65002, NeighborIPs := [''203.0.113.1''],
            peer.Prefixes := [''198.51.100.0/24'', ''2001:db8:1::/48'']\<rparr>)),
        (''ix'', Some (zero_peer
           \<lparr>peer.ASN := 65003, NeighborIPs := [''2001:db8:ffff::1''], LocalPref := 200\<rparr>))],
     VRRPInstances :=
       [zero_vrrpInstance\<lparr>State := ''primary'', Interface := ''eth0'', VRID := 1,
          Priority := 255, VIPs := [''192.0.2.254/24'']\<rparr>],
     Augments := zero_augments
       \<lparr>Statics := [(''203.0.113.0/24'', ''192.0.2.2''), (''2001:db8:2::/48'', ''2001:db8::2'')]\<rparr>\<rparr>"

lemmas decoder_defs = yaml_UnmarshalStrict_def config_fields_def setter_def
      dec_peer_def peer_fields_def dec_vrrpInstance_def vrrpInstance_fields_def
      dec_augments_def augments_fields_def dec_iface_def iface_fields_def

lemmas zero_defs = zero_config_def zero_peer_def zero_vrrpInstance_def zero_augments_def
  zero_iface_def

lemma ex_decode: "yaml_UnmarshalStrict example_doc = Inr example_c0"
  by (simp add: example_doc_def str_def decoder_defs example_c0_def zero_defs)

definition default_peer :: peer where
  "default_peer = zero_peer
    \<lparr>LocalPref := 100, LocalPort := 179, NeighborPort := 179, RemovePrivateASNs := True,
     ImportLimit4 := 1000000, ImportLimit6 := 100000, EnforceFirstAS := True,
     EnforcePeerNexthop := True, MaxPrefixTripAction := ''disable'', FilterIRR := True,
     FilterRPKI := True, FilterMaxPrefix := True, FilterBogons := True,
     AnnounceSpecifics := True\<rparr>"

definition example_cfg :: config where
  "example_cfg = zero_config
    \<lparr>config.ASN := 65001,
     config.Prefixes := [''192.0.2.0/24'', ''2001:db8::/32''],
     RouterID := ''192.0.2.1'',
     IRRServer := ''rr.ntt.net'',
     RTRServer := ''rtr.rpki.cloudflare.com'',
     RTRPort := 8282,
     BirdDirectory := ''/etc/bird/'',
     BirdSocket := ''/run/bird/bird.ctl'',
     KeepalivedConfig := ''/etc/keepalived.conf'',
     WebUIFile := ''/run/wireframe.html'',
     PeeringDbQueryTimeout := 10,
     IRRQueryTimeout := 30,
     Peers :=
       [(''upstream'', Some (default_peer
           \<lparr>peer.ASN := 65002, NeighborIPs := [''203.0.113.1''],
            peer.Prefixes := [''198.51.100.0/24'', ''2001:db8:1::/48''],
            PrefixSet4 := [''2001:db8:1::/48''], PrefixSet6 := [''198.51.100.0/24'']\<rparr>)),
        (''ix'', Some (default_peer
           \<lparr>peer.ASN := 65003, NeighborIPs := [''2001:db8:ffff::1''], LocalPref := 200\<rparr>))],
     VRRPInstances :=
       [zero_vrrpInstance\<lparr>State := ''primary'', Interface := ''eth0'', VRID := 1,
          Priority := 255, VIPs := [''192.0.2.254/24'']\<rparr>],
     Augments := zero_augments
       \<lparr>Statics := [(''203.0.113.0/24'', ''192.0.2.2''), (''2001:db8:2::/48'', ''2001:db8::2'')],
        Statics4 := Some [''203.0.113.0/24'' \<mapsto> ''192.0.2.2''],
        Statics6 := Some [''2001:db8:2::/48'' \<mapsto> ''2001:db8::2'']\<rparr>,
     Prefixes4 := [''2001:db8::/32''],
     Prefixes6 := [''192.0.2.0/24'']\<rparr>"

lemma ex_cidrs:
  "ParseCIDR ''192.0.2.0/24'' = Some [0, 0, 0, 0, 0, 0, 0, 0, 0, 0, 255, 255, 192, 0, 2, 0]"
  "ParseCIDR ''2001:db8::/32'' = Some [32, 1, 13, 184, 0, 0, 0, 0, 0, 0, 0, 0, 0, 0, 0, 0]"
  "ParseCIDR ''198.51.100.0/24'' = Some [0, 0, 0, 0, 0, 0, 0, 0, 0, 0, 255, 255, 198, 51, 100, 0]"
  "ParseCIDR ''2001:db8:1::/48'' = Some [32, 1, 13, 184, 0, 1, 0, 0, 0, 0, 0, 0, 0, 0, 0, 0]"
  "ParseCIDR ''192.0.2.254/24'' = Some [0, 0, 0, 0, 0, 0, 0, 0, 0, 0, 255, 255, 192, 0, 2, 254]"
  "ParseCIDR ''203.0.113.0/24'' = Some [0, 0, 0, 0, 0, 0, 0, 0, 0, 0, 255, 255, 203, 0, 113, 0]"
  "ParseCIDR ''2001:db8:2::/48'' = Some [32, 1, 13, 184, 0, 2, 0, 0, 0, 0, 0, 0, 0, 0, 0, 0]"
  by code_simp+

lemma ex_ips:
  "ParseIP ''192.0.2.2'' = Some [0, 0, 0, 0, 0, 0, 0, 0, 0, 0, 255, 255, 192, 0, 2, 2]"
  "ParseIP ''2001:db8::2'' = Some [32, 1, 13, 184, 0, 0, 0, 0, 0, 0, 0, 0, 0, 0, 0, 2]"
  by code_simp+

lemma ex_To4:
  "To4 [0, 0, 0, 0, 0, 0, 0, 0, 0, 0, 255, 255, 192, 0, 2, 0] = Some [192, 0, 2, 0]"
  "To4 [32, 1, 13, 184, 0, 0, 0, 0, 0, 0, 0, 0, 0, 0, 0, 0] = None"
  "To4 [0, 0, 0, 0, 0, 0, 0, 0, 0, 0, 255, 255, 198, 51, 100, 0] = Some [198, 51, 100, 0]"
  "To4 [32, 1, 13, 184, 0, 1, 0, 0, 0, 0, 0, 0, 0, 0, 0, 0] = None"
  "To4 [0, 0, 0, 0, 0, 0, 0, 0, 0, 0, 255, 255, 192, 0, 2, 254] = Some [192, 0, 2, 254]"
  "To4 [0, 0, 0, 0, 0, 0, 0, 0, 0, 0, 255, 255, 203, 0, 113, 0] = Some [203, 0, 113, 0]"
  "To4 [32, 1, 13, 184, 0, 2, 0, 0, 0, 0, 0, 0, 0, 0, 0, 0] = None"
  by code_simp+

lemmas loader_defs = loadConfig_def fill_defaults_def defaults_Set_config_def defaults_config_def
  defaults_peer_def default_uint_def default_int_def default_bool_def default_string_def
  normalize_def vrrp_body_def vrrp_state_def

lemma ex_load: "loadConfig std_env example_doc = Returns (Some example_cfg, None)"
  by (simp add: ex_decode std_env_def validate_root_def loader_defs example_c0_def example_cfg_def
      default_peer_def zero_defs ex_cidrs ex_ips ex_To4)

lemma env_ok_std: "env_ok std_env"
  by (simp add: env_ok_def range_ok_def std_env_def)

lemma env_ok_rev: "env_ok rev_env"
  by (simp add: env_ok_def range_ok_def rev_env_def)

theorem family_partition_witness:
  "env_ok std_env \<and> loadConfig std_env example_doc = Returns (Some example_cfg, None)
   \<and> set (Prefixes4 example_cfg) \<union> set (Prefixes6 example_cfg) = set (config.Prefixes example_cfg)
   \<and> set (Prefixes4 example_cfg) \<inter> set (Prefixes6 example_cfg) = {}
   \<and> list_all (\<lambda>(name, po). \<exists>p. po = Some p
         \<and> set (PrefixSet4 p) \<union> set (PrefixSet6 p) = set (peer.Prefixes p)
         \<and> set (PrefixSet4 p) \<inter> set (PrefixSet6 p) = {}) (Peers example_cfg)"
  using env_ok_std ex_load family_partition [OF env_ok_std ex_load]
  unfolding list_all_iff by blast

theorem statics_partition_witness:
  "env_ok std_env \<and> loadConfig std_env example_doc = Returns (Some example_cfg, None)
   \<and> (\<exists>m4 m6. Statics4 (Augments example_cfg) = Some m4 \<and> Statics6 (Augments example_cfg) = Some m6
        \<and> m4 ++ m6 = map_of (Statics (Augments example_cfg)) \<and> dom m4 \<inter> dom m6 = {}
        \<and> (\<forall>k \<in> dom m4. \<exists>ip. net_ParseCIDR std_env k = Some ip \<and> To4 ip \<noteq> None)
        \<and> (\<forall>k \<in> dom m6. \<exists>ip. net_ParseCIDR std_env k = Some ip \<and> To4 ip = None))"
  using env_ok_std ex_load statics_partition [OF env_ok_std ex_load] by blast

theorem loadConfig_deterministic_witness:
  "env_ok std_env \<and> env_ok rev_env
   \<and> net_ParseCIDR rev_env = net_ParseCIDR std_env \<and> net_ParseIP rev_env = net_ParseIP std_env
   \<and> validate_Struct rev_env = validate_Struct std_env
   \<and> loadConfig std_env example_doc = Returns (Some example_cfg, None)
   \<and> loadConfig rev_env example_doc = Returns (Some example_cfg, None)"
proof -
  have same: "net_ParseCIDR rev_env = net_ParseCIDR std_env"
    "net_ParseIP rev_env = net_ParseIP std_env"
    "validate_Struct rev_env = validate_Struct std_env"
    by (simp_all add: std_env_def rev_env_def)
  note det = loadConfig_deterministic [OF env_ok_std env_ok_rev same, of example_doc]
  from det ex_load obtain c where c: "loadConfig rev_env example_doc = Returns (Some c, None)"
    by blast
  with det ex_load have "example_cfg = c" by blast
  with c ex_load env_ok_std env_ok_rev same show ?thesis by simp
qed

end
